theory Spec2Isabelle
  imports Complex_Main
begin

section \<open>Configuration of the rent-division program\<close>

text \<open>
  The program \<^verbatim>\<open>rent.py\<close> computes with Python floats. The embedding uses exact real
  numbers instead: every price is a \<^typ>\<open>real\<close>, \<^verbatim>\<open>round(x, 3)\<close> is rounding to the nearest
  multiple of one thousandth with ties to the even neighbour, and \<^verbatim>\<open>2/3\<close> is the exact
  fraction. Exceptions are values of the type \<open>error\<close>, named after the message of
  the \<^verbatim>\<open>Exception\<close> the source raises (or after Python's built-in exception).
\<close>

datatype error =
    MismatchedDimensions
  | TotalMismatch
  | NegativeValues
  | NonDistinctLabels
  | IndexError
  | KeyError
  | ValueError

type_synonym room = int
type_synonym housemate = char

definition EPS :: real where
  "EPS = 1 / 100"

definition ROUNDING :: nat where
  "ROUNDING = 3"

definition housemates :: "housemate list" where
  "housemates = ''ABC''"

definition rooms :: "room list" where
  "rooms = [1, 2, 3]"

definition total_rent :: real where
  "total_rent = 1000"

section \<open>Python primitives\<close>

definition bindE :: "error + 'a \<Rightarrow> ('a \<Rightarrow> error + 'b) \<Rightarrow> error + 'b" where
  "bindE m f = (case m of Inl e \<Rightarrow> Inl e | Inr x \<Rightarrow> f x)"

text \<open>\<^verbatim>\<open>xs[i]\<close>: a negative index counts from the end, anything out of range raises.\<close>

definition py_get :: "'a list \<Rightarrow> int \<Rightarrow> error + 'a" where
  "py_get xs i =
     (if 0 \<le> i \<and> i < int (length xs) then Inr (xs ! nat i)
      else if i < 0 \<and> - int (length xs) \<le> i then Inr (xs ! nat (int (length xs) + i))
      else Inl IndexError)"

text \<open>\<^verbatim>\<open>xs.index(v)\<close> for a value that occurs in \<open>xs\<close>: the first position.\<close>

fun py_index :: "'a list \<Rightarrow> 'a \<Rightarrow> nat" where
  "py_index [] v = 0"
| "py_index (x # xs) v = (if x = v then 0 else Suc (py_index xs v))"

definition round_half_even :: "real \<Rightarrow> int" where
  "round_half_even x =
     (let f = \<lfloor>x\<rfloor>; d = x - of_int f
      in if d < 1 / 2 then f
         else if 1 / 2 < d then f + 1
         else if even f then f else f + 1)"

text \<open>\<^verbatim>\<open>round(x, n)\<close> on exact numbers.\<close>

definition py_round :: "real \<Rightarrow> nat \<Rightarrow> real" where
  "py_round x n = of_int (round_half_even (x * 10 ^ n)) / 10 ^ n"

section \<open>Strategies\<close>

text \<open>
  A strategy reads the coordinates of the point it is asked about and returns a room,
  Python's \<^verbatim>\<open>None\<close> (the value \<open>None\<close>), or raises.
\<close>

type_synonym strategy = "real list \<Rightarrow> error + room option"

definition cheapskateStrategy :: strategy where
  "cheapskateStrategy cs =
     (if cs = [] then Inl ValueError
      else let min_cost = min_list cs;
               min_index = py_index cs min_cost
           in bindE (py_get rooms (int min_index)) (\<lambda>r. Inr (Some r)))"

text \<open>
  The dictionary \<^verbatim>\<open>prices\<close> of \<^verbatim>\<open>makeCapStrategy\<close>: the caps under the room keys, and the
  entries \<^verbatim>\<open>'favorite'\<close> and \<^verbatim>\<open>'order'\<close>.
\<close>

record prices =
  caps :: "(room \<times> real) list"
  favorite :: room
  order :: "room list"

fun capScan :: "prices \<Rightarrow> real list \<Rightarrow> room list \<Rightarrow> error + room option" where
  "capScan p cs [] = Inr None"
| "capScan p cs (i # rest) =
     bindE (py_get cs (i - 1)) (\<lambda>c.
       case map_of (caps p) i of
         None \<Rightarrow> Inl KeyError
       | Some cap \<Rightarrow> if c < cap then Inr (Some i) else capScan p cs rest)"

definition capStrategy :: "prices \<Rightarrow> strategy" where
  "capStrategy p cs =
     (if 0 \<in> set cs
      then bindE (py_get cs (favorite p - 1)) (\<lambda>c.
             if c \<noteq> 0 then cheapskateStrategy cs else capScan p cs (order p))
      else capScan p cs (order p))"

definition makeCapStrategy :: "prices \<Rightarrow> strategy" where
  "makeCapStrategy p = capStrategy p"

definition capA :: prices where
  "capA = \<lparr>caps = [(1, 500), (2, 500), (3, 0)], favorite = 1, order = [1, 2, 3]\<rparr>"

text \<open>The dictionary \<^verbatim>\<open>strategies\<close>; a missing key is \<open>None\<close>.\<close>

type_synonym strategies = "housemate \<Rightarrow> strategy option"

definition strategies :: strategies where
  "strategies =
     [CHR ''A'' \<mapsto> makeCapStrategy capA,
      CHR ''B'' \<mapsto> cheapskateStrategy,
      CHR ''C'' \<mapsto> cheapskateStrategy]"

section \<open>Points\<close>

record Point =
  coords :: "real list"
  decisions :: "(housemate \<times> room option) list"

definition query :: "strategies \<Rightarrow> real list \<Rightarrow> housemate \<Rightarrow> error + room option" where
  "query S cs h = (case S h of None \<Rightarrow> Inl KeyError | Some f \<Rightarrow> f cs)"

text \<open>
  The loop \<^verbatim>\<open>for h in housemates: self.decisions[h] = self.query(h)\<close>; the dictionary is kept
  as the list of its entries in insertion order (the housemates are pairwise distinct).
\<close>

fun queryAll :: "strategies \<Rightarrow> real list \<Rightarrow> housemate list
    \<Rightarrow> error + (housemate \<times> room option) list" where
  "queryAll S cs [] = Inr []"
| "queryAll S cs (h # hs) =
     bindE (query S cs h) (\<lambda>r.
       bindE (queryAll S cs hs) (\<lambda>ds. Inr ((h, r) # ds)))"

definition normalise :: "real \<Rightarrow> real" where
  "normalise i = (if i < EPS then 0 else py_round i ROUNDING)"

definition Point_init :: "strategies \<Rightarrow> real list \<Rightarrow> error + Point" where
  "Point_init S cs =
     (if length cs \<noteq> length rooms then Inl MismatchedDimensions
      else if EPS < \<bar>sum_list cs - total_rent\<bar> then Inl TotalMismatch
      else if min_list cs < 0 then Inl NegativeValues
      else let cs' = map normalise cs
           in bindE (queryAll S cs' housemates) (\<lambda>ds.
                Inr \<lparr>coords = cs', decisions = ds\<rparr>))"

text \<open>
  The list comprehension of \<^verbatim>\<open>findPoint\<close>: the coordinates before they go through the
  constructor.
\<close>

definition lerp :: "Point \<Rightarrow> Point \<Rightarrow> real \<Rightarrow> real list" where
  "lerp p pt2 t =
     map (\<lambda>i. (1 - t) * coords p ! i + t * coords pt2 ! i) [0 ..< length (coords p)]"

definition findPoint :: "strategies \<Rightarrow> Point \<Rightarrow> Point \<Rightarrow> real \<Rightarrow> error + Point" where
  "findPoint S p pt2 t =
     (if length (coords pt2) < length (coords p) then Inl IndexError
      else Point_init S (lerp p pt2 t))"

text \<open>\<^verbatim>\<open>Point.__eq__\<close>: closeness of every coordinate within \<open>EPS\<close>.\<close>

definition Point_eq :: "Point \<Rightarrow> Point \<Rightarrow> error + bool" where
  "Point_eq p other =
     (if length (coords other) < length (coords p) then Inl IndexError
      else Inr (list_all (\<lambda>i. \<bar>coords p ! i - coords other ! i\<bar> < EPS)
                  [0 ..< length (coords p)]))"

section \<open>Triangles\<close>

text \<open>
  The class \<^verbatim>\<open>Triangle\<close>. The attribute \<^verbatim>\<open>choices\<close> does not exist before
  \<^verbatim>\<open>initChoicesFromCornerLabel\<close> has run: it is \<open>None\<close> until then.
\<close>

datatype Triangle =
  Triangle
    (corners: "Point list")
    (all_points: "Point list")
    (mid_points: "Point list")
    (inner_triangles: "Triangle list")
    (corner_label: string)
    (good: bool)
    (name: string)
    (barycentre_pt: Point)
    (labels: "string list")
    (choices: "room option list option")

definition set_inner_triangles :: "Triangle list \<Rightarrow> Triangle \<Rightarrow> Triangle" where
  "set_inner_triangles v t =
     Triangle (corners t) (all_points t) (mid_points t) v (corner_label t) (good t)
       (name t) (barycentre_pt t) (labels t) (choices t)"

definition set_corner_label :: "string \<Rightarrow> Triangle \<Rightarrow> Triangle" where
  "set_corner_label v t =
     Triangle (corners t) (all_points t) (mid_points t) (inner_triangles t) v (good t)
       (name t) (barycentre_pt t) (labels t) (choices t)"

definition set_labels :: "string list \<Rightarrow> Triangle \<Rightarrow> Triangle" where
  "set_labels v t =
     Triangle (corners t) (all_points t) (mid_points t) (inner_triangles t)
       (corner_label t) (good t) (name t) (barycentre_pt t) v (choices t)"

definition set_choices_good :: "room option list \<Rightarrow> bool \<Rightarrow> Triangle \<Rightarrow> Triangle" where
  "set_choices_good cs g t =
     Triangle (corners t) (all_points t) (mid_points t) (inner_triangles t)
       (corner_label t) g (name t) (barycentre_pt t) (labels t) (Some cs)"

definition default_labels :: "string list" where
  "default_labels = [''ABC'', ''BAC'', ''CAB'', ''CBA'', ''BCA'', ''ACB'']"

text \<open>The loop of \<^verbatim>\<open>initPointsFromCorners\<close> over \<^verbatim>\<open>range(len(c))\<close>.\<close>

fun midPoints :: "strategies \<Rightarrow> Point list \<Rightarrow> nat list \<Rightarrow> error + Point list" where
  "midPoints S c [] = Inr []"
| "midPoints S c (i # rest) =
     bindE (findPoint S (c ! i) (c ! ((i + 1) mod length c)) (1 / 2)) (\<lambda>m.
       bindE (midPoints S c rest) (\<lambda>ms. Inr (m # ms)))"

text \<open>
  \<^verbatim>\<open>initPointsFromCorners\<close> returns the midpoints and the barycentre it stores;
  \<^verbatim>\<open>all_points\<close> is put together from them in \<open>Triangle_new\<close>.
\<close>

definition initPointsFromCorners :: "strategies \<Rightarrow> Point list \<Rightarrow> error + Point list \<times> Point" where
  "initPointsFromCorners S c =
     bindE (midPoints S c [0 ..< length c]) (\<lambda>ms.
       bindE (py_get c 0) (\<lambda>c0.
         bindE (py_get ms 1) (\<lambda>m1.
           bindE (findPoint S c0 m1 (2 / 3)) (\<lambda>b. Inr (ms, b)))))"

text \<open>The constructor called with \<^verbatim>\<open>initInner=False\<close>, as \<^verbatim>\<open>initInnerTriangles\<close> calls it.\<close>

definition Triangle_new :: "strategies \<Rightarrow> Point \<Rightarrow> Point \<Rightarrow> Point \<Rightarrow> string \<Rightarrow> error + Triangle" where
  "Triangle_new S pt1 pt2 pt3 nm =
     (let c = [pt1, pt2, pt3]
      in bindE (initPointsFromCorners S c) (\<lambda>(ms, b).
           Inr (Triangle c (ms @ c @ [b]) ms [] ''AAA'' False nm b default_labels None)))"

text \<open>
  The loop of \<^verbatim>\<open>initChoicesFromCornerLabel\<close>: position \<open>i\<close> of the label is read at corner
  \<open>i\<close>, in the dictionary of cached decisions.
\<close>

fun readChoices :: "Point list \<Rightarrow> string \<Rightarrow> error + room option list" where
  "readChoices cs [] = Inr []"
| "readChoices [] (l # ls) = Inl IndexError"
| "readChoices (c # cs) (l # ls) =
     (case map_of (decisions c) l of
        None \<Rightarrow> Inl KeyError
      | Some d \<Rightarrow> bindE (readChoices cs ls) (\<lambda>ds. Inr (d # ds)))"

definition initChoicesFromCornerLabel :: "Triangle \<Rightarrow> error + Triangle" where
  "initChoicesFromCornerLabel t =
     bindE (readChoices (corners t) (corner_label t)) (\<lambda>chs.
       Inr (set_choices_good chs (list_all (\<lambda>room. Some room \<in> set chs) rooms) t))"

text \<open>The lambda \<^verbatim>\<open>l5\<close>: the first housemate that is neither \<open>x\<close> nor \<open>y\<close>.\<close>

definition l5 :: "housemate \<Rightarrow> housemate \<Rightarrow> error + housemate" where
  "l5 x y =
     (case filter (\<lambda>z. z \<notin> set [x, y]) housemates of
        [] \<Rightarrow> Inl IndexError
      | z # _ \<Rightarrow> Inr z)"

definition generateLabelsFromCornerLabel :: "Triangle \<Rightarrow> error + Triangle" where
  "generateLabelsFromCornerLabel t =
     (if list_ex (\<lambda>x. x \<notin> set (corner_label t)) housemates then Inl NonDistinctLabels
      else case corner_label t of
        l0 # l1 # l2 # _ \<Rightarrow>
          (let l3 = l2; l4 = l1; l6 = l0
           in bindE (l5 l0 l3) (\<lambda>a0.
              bindE (l5 l3 l1) (\<lambda>a1.
              bindE (l5 l1 l6) (\<lambda>a2.
              bindE (l5 l6 l2) (\<lambda>a3.
              bindE (l5 l4 l2) (\<lambda>a4.
              bindE (l5 l0 l4) (\<lambda>a5.
                Inr (set_labels
                       [[l0, l3, a0], [l3, l1, a1], [a2, l1, l6],
                        [a3, l6, l2], [l4, a4, l2], [l0, a5, l4]] t))))))))
      | _ \<Rightarrow> Inl IndexError)"

text \<open>
  The loop of \<^verbatim>\<open>initInnerTriangles\<close> over the six fresh children: child \<open>i\<close> gets
  \<^verbatim>\<open>self.labels[i]\<close>, computes its choices, and propagates its labels when it is good.
\<close>

fun labelInner :: "Triangle list \<Rightarrow> string list \<Rightarrow> error + Triangle list" where
  "labelInner [] ls = Inr []"
| "labelInner (t # ts) [] = Inl IndexError"
| "labelInner (t # ts) (l # ls) =
     bindE (initChoicesFromCornerLabel (set_corner_label l t)) (\<lambda>t1.
       bindE (if good t1 then generateLabelsFromCornerLabel t1 else Inr t1) (\<lambda>t2.
         bindE (labelInner ts ls) (\<lambda>ts'. Inr (t2 # ts'))))"

text \<open>
  Every triangle the constructor builds has three corners and three midpoints; a value
  of another shape raises \<^verbatim>\<open>IndexError\<close> at \<^verbatim>\<open>c[..]\<close> or \<^verbatim>\<open>m[..]\<close>.
\<close>

definition initInnerTriangles :: "strategies \<Rightarrow> Triangle \<Rightarrow> error + Triangle" where
  "initInnerTriangles S t =
     (case (corners t, mid_points t) of
        ([c0, c1, c2], [m0, m1, m2]) \<Rightarrow>
          (let b = barycentre_pt t
           in bindE (Triangle_new S c0 m0 b (name t @ ''0'')) (\<lambda>t0.
              bindE (Triangle_new S m0 c1 b (name t @ ''1'')) (\<lambda>t1.
              bindE (Triangle_new S b c1 m1 (name t @ ''2'')) (\<lambda>t2.
              bindE (Triangle_new S b m1 c2 (name t @ ''3'')) (\<lambda>t3.
              bindE (Triangle_new S m2 b c2 (name t @ ''4'')) (\<lambda>t4.
              bindE (Triangle_new S c0 b m2 (name t @ ''5'')) (\<lambda>t5.
              bindE (labelInner [t0, t1, t2, t3, t4, t5] (labels t)) (\<lambda>ts.
                Inr (set_inner_triangles ts t)))))))))
      | _ \<Rightarrow> Inl IndexError)"

text \<open>The constructor \<^verbatim>\<open>Triangle(pt1, pt2, pt3, initInner, name)\<close>.\<close>

definition Triangle_init ::
    "strategies \<Rightarrow> Point \<Rightarrow> Point \<Rightarrow> Point \<Rightarrow> bool \<Rightarrow> string \<Rightarrow> error + Triangle" where
  "Triangle_init S pt1 pt2 pt3 initInner nm =
     bindE (Triangle_new S pt1 pt2 pt3 nm) (\<lambda>t.
       if initInner then initInnerTriangles S t else Inr t)"

definition getGoodInnerTriangleIndex :: "Triangle \<Rightarrow> error + nat \<times> Triangle" where
  "getGoodInnerTriangleIndex tr =
     (let t = inner_triangles tr
      in case filter (\<lambda>i. good (t ! i)) [0 ..< length t] of
           [] \<Rightarrow> Inl IndexError
         | idx # _ \<Rightarrow> Inr (idx, t ! idx))"

definition getGoodInnerTriangle :: "Triangle \<Rightarrow> error + Triangle" where
  "getGoodInnerTriangle tr =
     (case filter good (inner_triangles tr) of
        [] \<Rightarrow> Inl IndexError
      | i # _ \<Rightarrow> Inr i)"

section \<open>The driver\<close>

datatype status = Converged | Exhausted | Stuck error

text \<open>
  What the loop leaves behind: the state it ended in, the value of the counter \<^verbatim>\<open>i\<close>, the
  number of the pass that ended it (the program prints it as \<^verbatim>\<open>Try {i}\<close>; it is the value
  \<^verbatim>\<open>i\<close> had when that pass began, the first pass having the number 1), and the last
  triangle that was subdivided without error.
\<close>

record outcome =
  final_status :: status
  final_i :: nat
  rounds :: nat
  final_triangle :: Triangle

definition max_iter :: nat where
  "max_iter = 1000"

text \<open>
  The body of \<^verbatim>\<open>while True\<close> up to \<^verbatim>\<open>i += 1\<close>. The printing is left out, except for the
  call of \<^verbatim>\<open>getGoodInnerTriangleIndex\<close> inside the last \<^verbatim>\<open>print\<close>, which can raise.
\<close>

definition loopBody :: "strategies \<Rightarrow> Triangle \<Rightarrow> error + Triangle" where
  "loopBody S tri =
     bindE (getGoodInnerTriangle tri) (\<lambda>t.
       bindE (initInnerTriangles S t) (\<lambda>t'.
         bindE (getGoodInnerTriangleIndex t') (\<lambda>_. Inr t')))"

text \<open>
  The loop. An exception anywhere in the body is caught and ends the loop (\<open>Stuck\<close>);
  the test \<^verbatim>\<open>new_bary == last_bary or i > max_iter\<close> ends it as \<open>Converged\<close> when the
  barycentres are equal and as \<open>Exhausted\<close> otherwise.
\<close>

function mainLoop :: "strategies \<Rightarrow> Triangle \<Rightarrow> nat \<Rightarrow> Point \<Rightarrow> outcome" where
  "mainLoop S tri i last_bary =
     (case loopBody S tri of
        Inl e \<Rightarrow>
          \<lparr>final_status = Stuck e, final_i = i, rounds = i, final_triangle = tri\<rparr>
      | Inr t' \<Rightarrow>
          (let i' = i + 1
           in case Point_eq (barycentre_pt t') last_bary of
                Inl e \<Rightarrow>
                  \<lparr>final_status = Stuck e, final_i = i', rounds = i, final_triangle = t'\<rparr>
              | Inr same \<Rightarrow>
                  if same then
                    \<lparr>final_status = Converged, final_i = i', rounds = i, final_triangle = t'\<rparr>
                  else if max_iter < i' then
                    \<lparr>final_status = Exhausted, final_i = i', rounds = i, final_triangle = t'\<rparr>
                  else mainLoop S t' i' (barycentre_pt t')))"
  by pat_completeness auto
termination
  by (relation "measure (\<lambda>(S, tri, i, last_bary). Suc max_iter - i)") auto

text \<open>
  The program under \<^verbatim>\<open>if __name__ == '__main__'\<close>. The three corner points and the first
  triangle are built outside the \<^verbatim>\<open>try\<close>: an exception there ends the program (\<open>Inl\<close>).
  The first \<^verbatim>\<open>try\<close> of the program only prints and is left out.
\<close>

definition main :: "strategies \<Rightarrow> error + outcome" where
  "main S =
     bindE (Point_init S [0, 0, total_rent]) (\<lambda>p1.
       bindE (Point_init S [0, total_rent, 0]) (\<lambda>p2.
         bindE (Point_init S [total_rent, 0, 0]) (\<lambda>p3.
           bindE (Triangle_init S p1 p2 p3 True []) (\<lambda>initial_triangle.
             Inr (mainLoop S initial_triangle 1 (barycentre_pt initial_triangle))))))"

section \<open>Notions used to state the properties\<close>

text \<open>
  A corner label is a permutation of the housemates when it names each of them once.
\<close>

definition is_permutation :: "string \<Rightarrow> bool" where
  "is_permutation l = (length l = length housemates \<and> distinct l \<and> set l = set housemates)"

text \<open>
  The function \<open>third\<close> of the specification: the unique housemate identifier equal to
  neither \<open>x\<close> nor \<open>y\<close>, undefined (\<open>None\<close>) when there is not exactly one.
\<close>

definition third :: "housemate \<Rightarrow> housemate \<Rightarrow> housemate option" where
  "third x y =
     (case filter (\<lambda>z. z \<noteq> x \<and> z \<noteq> y) housemates of [z] \<Rightarrow> Some z | _ \<Rightarrow> None)"

text \<open>
  The attribute \<^verbatim>\<open>labels\<close> of a triangle is in order when it holds six labels, each a
  permutation of the housemates.
\<close>

definition labels_ok :: "Triangle \<Rightarrow> bool" where
  "labels_ok t = (length (labels t) = 6 \<and> list_all is_permutation (labels t))"

text \<open>
  The values the variable \<^verbatim>\<open>initial_triangle\<close> of the main program takes: the subdivided
  first triangle, and then the subdivision of the first good child of the value before.
\<close>

inductive descends :: "strategies \<Rightarrow> Triangle \<Rightarrow> bool" for S :: strategies where
  root: "Triangle_init S pt1 pt2 pt3 True nm = Inr t \<Longrightarrow> descends S t"
| step: "descends S t \<Longrightarrow> getGoodInnerTriangle t = Inr c \<Longrightarrow> initInnerTriangles S c = Inr c'
         \<Longrightarrow> descends S c'"

text \<open>
  Strategies that are preference functions: every housemate has one, and it returns (a
  room or \<^verbatim>\<open>None\<close>) on every price vector with one price per room.
\<close>

definition never_raise :: "strategies \<Rightarrow> bool" where
  "never_raise S =
     (\<forall>h \<in> set housemates. \<exists>f. S h = Some f
        \<and> (\<forall>cs. length cs = length rooms \<longrightarrow> (\<exists>r. f cs = Inr r)))"

text \<open>The arithmetic mean \<open>(C0 + C1 + C2) / 3\<close> of three corners.\<close>

definition arithmetic_mean :: "Point \<Rightarrow> Point \<Rightarrow> Point \<Rightarrow> real list" where
  "arithmetic_mean c0 c1 c2 =
     map (\<lambda>i. (coords c0 ! i + coords c1 ! i + coords c2 ! i) / 3) [0 ..< length (coords c0)]"

text \<open>
  The point the constructor builds from coordinates that are already normalised, when
  the strategies return: the cached decisions are what the strategies answer there.
\<close>

definition decide_all :: "strategies \<Rightarrow> real list \<Rightarrow> (housemate \<times> room option) list" where
  "decide_all S cs = (case queryAll S cs housemates of Inl e \<Rightarrow> [] | Inr ds \<Rightarrow> ds)"

definition mkPoint :: "strategies \<Rightarrow> real list \<Rightarrow> Point" where
  "mkPoint S cs = \<lparr>coords = cs, decisions = decide_all S cs\<rparr>"

section \<open>Example values\<close>

text \<open>
  The three corner points of the program's first triangle under the strategies of the
  source, its midpoints and its barycentre, and the triangle the constructor builds from
  them without subdividing.
\<close>

definition ex_p1 :: Point where
  "ex_p1 = \<lparr>coords = [0, 0, 1000],
     decisions = [(CHR ''A'', Some 1), (CHR ''B'', Some 1), (CHR ''C'', Some 1)]\<rparr>"

definition ex_p2 :: Point where
  "ex_p2 = \<lparr>coords = [0, 1000, 0],
     decisions = [(CHR ''A'', Some 1), (CHR ''B'', Some 1), (CHR ''C'', Some 1)]\<rparr>"

definition ex_p3 :: Point where
  "ex_p3 = \<lparr>coords = [1000, 0, 0],
     decisions = [(CHR ''A'', Some 2), (CHR ''B'', Some 2), (CHR ''C'', Some 2)]\<rparr>"

definition ex_m0 :: Point where
  "ex_m0 = \<lparr>coords = [0, 500, 500],
     decisions = [(CHR ''A'', Some 1), (CHR ''B'', Some 1), (CHR ''C'', Some 1)]\<rparr>"

definition ex_m1 :: Point where
  "ex_m1 = \<lparr>coords = [500, 500, 0],
     decisions = [(CHR ''A'', Some 3), (CHR ''B'', Some 3), (CHR ''C'', Some 3)]\<rparr>"

definition ex_m2 :: Point where
  "ex_m2 = \<lparr>coords = [500, 0, 500],
     decisions = [(CHR ''A'', Some 2), (CHR ''B'', Some 2), (CHR ''C'', Some 2)]\<rparr>"

definition ex_b :: Point where
  "ex_b = \<lparr>coords = [333333 / 1000, 333333 / 1000, 333333 / 1000],
     decisions = [(CHR ''A'', Some 1), (CHR ''B'', Some 1), (CHR ''C'', Some 1)]\<rparr>"

definition ex_root :: Triangle where
  "ex_root =
     Triangle [ex_p1, ex_p2, ex_p3]
       [ex_m0, ex_m1, ex_m2, ex_p1, ex_p2, ex_p3, ex_b]
       [ex_m0, ex_m1, ex_m2] [] ''AAA'' False [] ex_b default_labels None"

text \<open>
  The fourth child of that triangle (corners barycentre, second midpoint, third corner)
  as its constructor builds it, with the label \<^verbatim>\<open>'CBA'\<close> the subdivision assigns to it.
\<close>

definition ex_n0 :: Point where
  "ex_n0 = \<lparr>coords = [208333 / 500, 208333 / 500, 83333 / 500],
     decisions = [(CHR ''A'', Some 1), (CHR ''B'', Some 3), (CHR ''C'', Some 3)]\<rparr>"

definition ex_n1 :: Point where
  "ex_n1 = \<lparr>coords = [750, 250, 0],
     decisions = [(CHR ''A'', Some 3), (CHR ''B'', Some 3), (CHR ''C'', Some 3)]\<rparr>"

definition ex_n2 :: Point where
  "ex_n2 = \<lparr>coords = [333333 / 500, 83333 / 500, 83333 / 500],
     decisions = [(CHR ''A'', Some 2), (CHR ''B'', Some 2), (CHR ''C'', Some 2)]\<rparr>"

definition ex_nb :: Point where
  "ex_nb = \<lparr>coords = [611111 / 1000, 138889 / 500, 111111 / 1000],
     decisions = [(CHR ''A'', Some 2), (CHR ''B'', Some 3), (CHR ''C'', Some 3)]\<rparr>"

definition ex_child3 :: Triangle where
  "ex_child3 =
     Triangle [ex_b, ex_m1, ex_p3]
       [ex_n0, ex_n1, ex_n2, ex_b, ex_m1, ex_p3, ex_nb]
       [ex_n0, ex_n1, ex_n2] [] ''CBA'' False ''3'' ex_nb default_labels None"

text \<open>
  A point with two coordinates below \<open>EPS\<close>, as \<^verbatim>\<open>Point(999.982, 0.009, 0.009)\<close> stores it; a
  point at which no room is below its cap, as \<^verbatim>\<open>Point(499.9996, 499.9996, 0.01)\<close> stores
  it; and the corners \<^verbatim>\<open>Point(400, 600, 0)\<close> and \<^verbatim>\<open>Point(400, 0, 600)\<close>.
\<close>

definition ex_snapped :: Point where
  "ex_snapped = \<lparr>coords = [999982 / 1000, 0, 0],
     decisions = [(CHR ''A'', Some 2), (CHR ''B'', Some 2), (CHR ''C'', Some 2)]\<rparr>"

definition ex_capped :: Point where
  "ex_capped = \<lparr>coords = [500, 500, 1 / 100],
     decisions = [(CHR ''A'', None), (CHR ''B'', Some 3), (CHR ''C'', Some 3)]\<rparr>"

definition ex_c1 :: Point where
  "ex_c1 = \<lparr>coords = [400, 600, 0],
     decisions = [(CHR ''A'', Some 3), (CHR ''B'', Some 3), (CHR ''C'', Some 3)]\<rparr>"

definition ex_c2 :: Point where
  "ex_c2 = \<lparr>coords = [400, 0, 600],
     decisions = [(CHR ''A'', Some 2), (CHR ''B'', Some 2), (CHR ''C'', Some 2)]\<rparr>"

text \<open>
  The triangle \<^verbatim>\<open>Triangle(Point(999.982, 0.009, 0.009), Point(0, 1000, 0), Point(0, 0, 1000))\<close>
  as the constructor builds it, with its midpoints and barycentre.
\<close>

definition ex_bm0 :: Point where
  "ex_bm0 = \<lparr>coords = [499991 / 1000, 500, 0],
     decisions = [(CHR ''A'', Some 3), (CHR ''B'', Some 3), (CHR ''C'', Some 3)]\<rparr>"

definition ex_bm2 :: Point where
  "ex_bm2 = \<lparr>coords = [499991 / 1000, 0, 500],
     decisions = [(CHR ''A'', Some 2), (CHR ''B'', Some 2), (CHR ''C'', Some 2)]\<rparr>"

definition ex_bb :: Point where
  "ex_bb = \<lparr>coords = [333327 / 1000, 333333 / 1000, 333333 / 1000],
     decisions = [(CHR ''A'', Some 1), (CHR ''B'', Some 1), (CHR ''C'', Some 1)]\<rparr>"

definition ex_bad :: Triangle where
  "ex_bad =
     Triangle [ex_snapped, ex_p2, ex_p1]
       [ex_bm0, ex_m0, ex_bm2, ex_snapped, ex_p2, ex_p1, ex_bb]
       [ex_bm0, ex_m0, ex_bm2] [] ''AAA'' False [] ex_bb default_labels None"

section \<open>Basic facts\<close>

lemma bindE_Inr: "(bindE m f = Inr y) = (\<exists>x. m = Inr x \<and> f x = Inr y)"
  by (cases m) (simp_all add: bindE_def)

lemma bindE_simps [simp]: "bindE (Inl e) f = Inl e" "bindE (Inr x) f = f x"
  by (simp_all add: bindE_def)

lemma set_fields [simp]:
  "corner_label (set_corner_label l t) = l" "labels (set_corner_label l t) = labels t"
  "corners (set_corner_label l t) = corners t" "good (set_corner_label l t) = good t"
  "corner_label (set_labels ls t) = corner_label t" "labels (set_labels ls t) = ls"
  "corners (set_labels ls t) = corners t" "good (set_labels ls t) = good t"
  "choices (set_labels ls t) = choices t"
  "corner_label (set_choices_good cs g t) = corner_label t"
  "labels (set_choices_good cs g t) = labels t"
  "corners (set_choices_good cs g t) = corners t" "good (set_choices_good cs g t) = g"
  "choices (set_choices_good cs g t) = Some cs"
  "inner_triangles (set_inner_triangles ts t) = ts" "labels (set_inner_triangles ts t) = labels t"
  "corner_label (set_inner_triangles ts t) = corner_label t"
  "corners (set_inner_triangles ts t) = corners t"
  "mid_points (set_inner_triangles ts t) = mid_points t"
  "barycentre_pt (set_inner_triangles ts t) = barycentre_pt t"
  "all_points (set_inner_triangles ts t) = all_points t"
  by (simp_all add: set_corner_label_def set_labels_def set_choices_good_def
      set_inner_triangles_def)

section \<open>Evaluating the example values\<close>

lemmas eval_defs = Triangle_init_def Triangle_new_def initPointsFromCorners_def findPoint_def
  lerp_def
  Point_init_def rooms_def EPS_def total_rent_def normalise_def py_round_def ROUNDING_def
  round_half_even_def Let_def housemates_def query_def strategies_def
  makeCapStrategy_def capStrategy_def capA_def py_get_def cheapskateStrategy_def
  initInnerTriangles_def default_labels_def
  initChoicesFromCornerLabel_def generateLabelsFromCornerLabel_def l5_def
  set_corner_label_def set_labels_def set_choices_good_def set_inner_triangles_def upt_rec

lemmas ex_defs = ex_p1_def ex_p2_def ex_p3_def ex_m0_def ex_m1_def ex_m2_def ex_b_def
  ex_n0_def ex_n1_def ex_n2_def ex_nb_def ex_snapped_def ex_capped_def ex_c1_def ex_c2_def
  ex_bm0_def ex_bm2_def ex_bb_def

lemma ex_root_built: "Triangle_new strategies ex_p1 ex_p2 ex_p3 [] = Inr ex_root"
  by (simp add: eval_defs ex_defs ex_root_def)

lemma ex_child3_built:
  "Triangle_new strategies ex_b ex_m1 ex_p3 ''3'' = Inr (set_corner_label ''AAA'' ex_child3)"
  by (simp add: eval_defs ex_defs ex_child3_def)

lemma ex_root_subdivides: "\<exists>u. Triangle_init strategies ex_p1 ex_p2 ex_p3 True [] = Inr u"
  by (simp add: eval_defs ex_defs)

section \<open>The first good child\<close>

lemma filter_nth_upt: "map ((!) xs) (filter (\<lambda>i. P (xs ! i)) [0 ..< length xs]) = filter P xs"
proof -
  have "filter P (map ((!) xs) [0 ..< length xs])
      = map ((!) xs) (filter (P \<circ> (!) xs) [0 ..< length xs])"
    by (rule filter_map)
  then show ?thesis by (simp add: map_nth comp_def)
qed

lemma first_index:
  assumes "filter Q [0 ..< n] = i # rest"
  shows "i < n \<and> Q i \<and> (\<forall>j < i. \<not> Q j)"
proof -
  from assms obtain us vs where s: "[0 ..< n] = us @ i # vs"
    and u: "\<forall>u \<in> set us. \<not> Q u" and q: "Q i"
    by (auto simp: filter_eq_Cons_iff)
  have "i \<in> set [0 ..< n]" using s by simp
  then have lt: "i < n" by simp
  have "length us = i"
  proof -
    have "[0 ..< n] ! length us = i" using s by simp
    moreover have "length us < n"
      using s by (metis length_upt length_append length_Cons add_Suc_right less_add_Suc1
          minus_nat.diff_0)
    ultimately show ?thesis by simp
  qed
  then have "us = take i [0 ..< n]" using s by (metis append_eq_conv_conj)
  then have "us = [0 ..< i]" using lt by simp
  with u q lt show ?thesis by simp
qed

text \<open>
  Claim C10. \<^verbatim>\<open>getGoodInnerTriangleIndex\<close> and \<^verbatim>\<open>getGoodInnerTriangle\<close> agree on every
  triangle: when the first raises (\<^verbatim>\<open>IndexError\<close>), so does the second, and no child is
  good; when the first returns \<open>(idx, c)\<close>, the second returns the same \<open>c\<close>, which is the
  child at position \<open>idx\<close>, is good, and has no good child before it.
\<close>

theorem good_child_agree:
  "(case getGoodInnerTriangleIndex tr of
      Inl e \<Rightarrow> e = IndexError \<and> getGoodInnerTriangle tr = Inl IndexError
               \<and> list_all (\<lambda>c. \<not> good c) (inner_triangles tr)
    | Inr (idx, c) \<Rightarrow> getGoodInnerTriangle tr = Inr c
               \<and> idx < length (inner_triangles tr) \<and> c = inner_triangles tr ! idx
               \<and> good c \<and> list_all (\<lambda>c. \<not> good c) (take idx (inner_triangles tr)))"
proof (cases "filter (\<lambda>i. good (inner_triangles tr ! i)) [0 ..< length (inner_triangles tr)]")
  case Nil
  then have "filter good (inner_triangles tr) = []"
    using filter_nth_upt [of "inner_triangles tr" good] by simp
  with Nil show ?thesis
    by (simp add: getGoodInnerTriangleIndex_def getGoodInnerTriangle_def list_all_iff
        filter_empty_conv)
next
  case (Cons i rest)
  then have f: "filter good (inner_triangles tr)
      = inner_triangles tr ! i # map ((!) (inner_triangles tr)) rest"
    using filter_nth_upt [of "inner_triangles tr" good] by simp
  from first_index [OF Cons] have i: "i < length (inner_triangles tr)"
    "good (inner_triangles tr ! i)" "\<forall>j < i. \<not> good (inner_triangles tr ! j)"
    by auto
  have "list_all (\<lambda>c. \<not> good c) (take i (inner_triangles tr))"
    using i by (auto simp: list_all_iff in_set_conv_nth)
  with Cons f i show ?thesis
    by (simp add: getGoodInnerTriangleIndex_def getGoodInnerTriangle_def)
qed

section \<open>Label propagation\<close>

lemma l5_total: "\<exists>z. l5 x y = Inr z"
  by (auto simp: l5_def housemates_def)

lemma contains_all_length:
  assumes "set housemates \<subseteq> set cl"
  shows "\<exists>l0 l1 l2 rest. cl = l0 # l1 # l2 # rest"
proof -
  have "card (set housemates) \<le> card (set cl)" using assms by (simp add: card_mono)
  moreover have "card (set housemates) = 3" by (simp add: housemates_def)
  ultimately have "3 \<le> length cl" using card_length [of cl] by linarith
  then show ?thesis
    by (cases cl rule: list.exhaust; simp; cases "tl cl"; simp; cases "tl (tl cl)"; simp)
qed

lemma generate_succeeds:
  assumes sub: "set housemates \<subseteq> set (corner_label t)"
  shows "\<exists>t'. generateLabelsFromCornerLabel t = Inr t'"
proof -
  obtain l0 l1 l2 rest where cl: "corner_label t = l0 # l1 # l2 # rest"
    using sub contains_all_length by blast
  from sub have ne: "\<not> list_ex (\<lambda>x. x \<notin> set (corner_label t)) housemates"
    by (auto simp: list_ex_iff)
  obtain a0 where "l5 l0 l2 = Inr a0" using l5_total by blast
  moreover obtain a1 where "l5 l2 l1 = Inr a1" using l5_total by blast
  moreover obtain a2 where "l5 l1 l0 = Inr a2" using l5_total by blast
  moreover obtain a4 where "l5 l1 l2 = Inr a4" using l5_total by blast
  moreover obtain a5 where "l5 l0 l1 = Inr a5" using l5_total by blast
  ultimately show ?thesis
    using ne cl by (simp add: generateLabelsFromCornerLabel_def bindE_def)
qed

lemma generate_fails:
  assumes "\<not> set housemates \<subseteq> set (corner_label t)"
  shows "generateLabelsFromCornerLabel t = Inl NonDistinctLabels"
proof -
  from assms have "list_ex (\<lambda>x. x \<notin> set (corner_label t)) housemates"
    by (auto simp: list_ex_iff)
  then show ?thesis by (simp add: generateLabelsFromCornerLabel_def)
qed

lemma perm_cases:
  assumes "is_permutation [l0, l1, l2]"
  shows "l0 \<in> set housemates" "l1 \<in> set housemates" "l2 \<in> set housemates"
    "l0 \<noteq> l1" "l0 \<noteq> l2" "l1 \<noteq> l2" "set housemates \<subseteq> set [l0, l1, l2]"
  using assms by (auto simp: is_permutation_def)

lemma perm_enum:
  assumes "is_permutation [l0, l1, l2]"
  shows "(l0 = CHR ''A'' \<and> l1 = CHR ''B'' \<and> l2 = CHR ''C'')
       \<or> (l0 = CHR ''A'' \<and> l1 = CHR ''C'' \<and> l2 = CHR ''B'')
       \<or> (l0 = CHR ''B'' \<and> l1 = CHR ''A'' \<and> l2 = CHR ''C'')
       \<or> (l0 = CHR ''B'' \<and> l1 = CHR ''C'' \<and> l2 = CHR ''A'')
       \<or> (l0 = CHR ''C'' \<and> l1 = CHR ''A'' \<and> l2 = CHR ''B'')
       \<or> (l0 = CHR ''C'' \<and> l1 = CHR ''B'' \<and> l2 = CHR ''A'')"
proof -
  have a: "l0 = CHR ''A'' \<or> l0 = CHR ''B'' \<or> l0 = CHR ''C''"
    using perm_cases(1) [OF assms] by (simp add: housemates_def)
  have b: "l1 = CHR ''A'' \<or> l1 = CHR ''B'' \<or> l1 = CHR ''C''"
    using perm_cases(2) [OF assms] by (simp add: housemates_def)
  have c: "l2 = CHR ''A'' \<or> l2 = CHR ''B'' \<or> l2 = CHR ''C''"
    using perm_cases(3) [OF assms] by (simp add: housemates_def)
  show ?thesis
    using a b c perm_cases(4-6) [OF assms] by (elim disjE; simp)
qed

lemma third_all:
  assumes "is_permutation [l0, l1, l2]"
  shows "l5 l0 l2 = Inr l1" "l5 l2 l1 = Inr l0" "l5 l1 l0 = Inr l2" "l5 l1 l2 = Inr l0"
    "l5 l0 l1 = Inr l2"
    "third l0 l2 = Some l1" "third l2 l1 = Some l0" "third l1 l0 = Some l2"
    "third l1 l2 = Some l0" "third l0 l1 = Some l2"
  using perm_enum [OF assms]
  by (elim disjE conjE; simp add: l5_def third_def housemates_def)+

lemma generate_perm:
  assumes cl: "corner_label t = [l0, l1, l2]" and p: "is_permutation [l0, l1, l2]"
  shows "generateLabelsFromCornerLabel t =
     Inr (set_labels [[l0, l2, l1], [l2, l1, l0], [l2, l1, l0],
                      [l1, l0, l2], [l1, l0, l2], [l0, l2, l1]] t)"
proof -
  have ne: "\<not> list_ex (\<lambda>x. x \<notin> set (corner_label t)) housemates"
    using perm_cases(7) [OF p] cl by (auto simp: list_ex_iff)
  show ?thesis using ne cl third_all(1-5) [OF p]
    by (simp add: generateLabelsFromCornerLabel_def bindE_def)
qed

text \<open>
  Claim C3. \<^verbatim>\<open>generateLabelsFromCornerLabel\<close> raises its exception exactly when some
  housemate does not occur in \<^verbatim>\<open>corner_label\<close>, and returns otherwise. When the label
  is a permutation \<open>(l0, l1, l2)\<close> of the housemates, \<^verbatim>\<open>self.labels\<close> becomes the six
  triples \<open>(l0, l2, third l0 l2)\<close>, \<open>(l2, l1, third l2 l1)\<close>, \<open>(third l1 l0, l1, l0)\<close>,
  \<open>(third l0 l2, l0, l2)\<close>, \<open>(l1, third l1 l2, l2)\<close>, \<open>(l0, third l0 l1, l1)\<close>, in this
  order, and nothing else of the triangle changes.
\<close>

theorem propagate_labels:
  "(generateLabelsFromCornerLabel t = Inl NonDistinctLabels)
     = (\<not> set housemates \<subseteq> set (corner_label t))
   \<and> (\<exists>t'. generateLabelsFromCornerLabel t = Inr t')
     = (set housemates \<subseteq> set (corner_label t))
   \<and> (corner_label t = [l0, l1, l2] \<and> is_permutation [l0, l1, l2] \<longrightarrow>
        (\<exists>a b c d e. third l0 l2 = Some a \<and> third l2 l1 = Some b \<and> third l1 l0 = Some c
           \<and> third l1 l2 = Some d \<and> third l0 l1 = Some e
           \<and> generateLabelsFromCornerLabel t =
               Inr (set_labels [[l0, l2, a], [l2, l1, b], [c, l1, l0],
                                [a, l0, l2], [l1, d, l2], [l0, e, l1]] t)))"
proof (intro conjI impI)
  show "(generateLabelsFromCornerLabel t = Inl NonDistinctLabels)
     = (\<not> set housemates \<subseteq> set (corner_label t))"
  proof (cases "set housemates \<subseteq> set (corner_label t)")
    case True
    with generate_succeeds [of t] show ?thesis by auto
  next
    case False
    with generate_fails [of t] show ?thesis by simp
  qed
next
  show "(\<exists>t'. generateLabelsFromCornerLabel t = Inr t')
     = (set housemates \<subseteq> set (corner_label t))"
  proof (cases "set housemates \<subseteq> set (corner_label t)")
    case True
    with generate_succeeds [of t] show ?thesis by simp
  next
    case False
    with generate_fails [of t] show ?thesis by simp
  qed
next
  assume a: "corner_label t = [l0, l1, l2] \<and> is_permutation [l0, l1, l2]"
  then have p: "is_permutation [l0, l1, l2]" by simp
  from third_all(6-10) [OF p] generate_perm [of t l0 l1 l2] a
  show "\<exists>a b c d e. third l0 l2 = Some a \<and> third l2 l1 = Some b \<and> third l1 l0 = Some c
           \<and> third l1 l2 = Some d \<and> third l0 l1 = Some e
           \<and> generateLabelsFromCornerLabel t =
               Inr (set_labels [[l0, l2, a], [l2, l1, b], [c, l1, l0],
                                [a, l0, l2], [l1, d, l2], [l0, e, l1]] t)"
    by simp
qed

theorem propagate_labels_witness:
  "corner_label (set_corner_label ''BCA'' ex_root) = ''BCA'' \<and> is_permutation ''BCA''
   \<and> generateLabelsFromCornerLabel (set_corner_label ''BCA'' ex_root) =
       Inr (set_labels [''BAC'', ''ACB'', ''ACB'', ''CBA'', ''CBA'', ''BAC'']
              (set_corner_label ''BCA'' ex_root))
   \<and> generateLabelsFromCornerLabel (set_corner_label ''AAB'' ex_root) = Inl NonDistinctLabels"
proof -
  have cl: "corner_label (set_corner_label ''BCA'' ex_root) = ''BCA''"
    by (simp add: set_corner_label_def)
  have p: "is_permutation ''BCA''"
    by (auto simp: is_permutation_def housemates_def)
  have th: "third (CHR ''B'') (CHR ''A'') = Some (CHR ''C'')"
    "third (CHR ''A'') (CHR ''C'') = Some (CHR ''B'')"
    "third (CHR ''C'') (CHR ''B'') = Some (CHR ''A'')"
    "third (CHR ''C'') (CHR ''A'') = Some (CHR ''B'')"
    "third (CHR ''B'') (CHR ''C'') = Some (CHR ''A'')"
    by (simp_all add: third_def housemates_def)
  have ns: "\<not> set housemates \<subseteq> set (corner_label (set_corner_label ''AAB'' ex_root))"
    by (simp add: set_corner_label_def housemates_def)
  from propagate_labels [of "set_corner_label ''BCA'' ex_root" "CHR ''B''" "CHR ''C''" "CHR ''A''"]
    cl p th
  have g: "generateLabelsFromCornerLabel (set_corner_label ''BCA'' ex_root) =
       Inr (set_labels [''BAC'', ''ACB'', ''ACB'', ''CBA'', ''CBA'', ''BAC'']
              (set_corner_label ''BCA'' ex_root))"
    by simp
  from propagate_labels [of "set_corner_label ''AAB'' ex_root" "CHR ''A''" "CHR ''A''" "CHR ''B''"]
    ns
  have f: "generateLabelsFromCornerLabel (set_corner_label ''AAB'' ex_root)
      = Inl NonDistinctLabels"
    by blast
  from cl p g f show ?thesis by blast
qed

section \<open>Labels stay permutations\<close>

lemma default_labels_perm: "list_all is_permutation default_labels"
  by (auto simp: default_labels_def is_permutation_def housemates_def)

lemma perm_three: "is_permutation l \<Longrightarrow> \<exists>l0 l1 l2. l = [l0, l1, l2]"
  by (cases l; simp add: is_permutation_def housemates_def; cases "tl l"; simp;
      cases "tl (tl l)"; simp)

lemma is_permutation_swap:
  assumes "is_permutation [l0, l1, l2]"
  shows "is_permutation [l0, l2, l1]" "is_permutation [l2, l1, l0]" "is_permutation [l1, l0, l2]"
  using perm_enum [OF assms]
  by (elim disjE conjE; simp add: is_permutation_def housemates_def; blast)+

lemma generate_keeps_perm:
  assumes "is_permutation (corner_label t)"
  shows "\<exists>t'. generateLabelsFromCornerLabel t = Inr t' \<and> labels_ok t'
     \<and> corner_label t' = corner_label t"
proof -
  from perm_three [OF assms] obtain l0 l1 l2 where cl: "corner_label t = [l0, l1, l2]" by blast
  then have p: "is_permutation [l0, l1, l2]" using assms by simp
  show ?thesis
    using generate_perm [OF cl p] is_permutation_swap [OF p] cl
    by (simp add: labels_ok_def)
qed

lemma initChoices_fields:
  "initChoicesFromCornerLabel t = Inr t' \<Longrightarrow>
     labels t' = labels t \<and> corner_label t' = corner_label t \<and> corners t' = corners t"
  by (auto simp: initChoicesFromCornerLabel_def bindE_Inr)

lemma generate_fields:
  "generateLabelsFromCornerLabel t = Inr t' \<Longrightarrow>
     corners t' = corners t \<and> corner_label t' = corner_label t \<and> good t' = good t
     \<and> choices t' = choices t"
  by (auto simp: generateLabelsFromCornerLabel_def bindE_Inr split: if_splits list.splits)

lemma labelInner_corners:
  "labelInner ts ls = Inr ts' \<Longrightarrow> map corners ts' = map corners ts"
proof (induction ts ls arbitrary: ts' rule: labelInner.induct)
  case (1 ls)
  then show ?case by simp
next
  case (2 t ts)
  then show ?case by simp
next
  case (3 t ts l ls)
  from "3.prems"(1) obtain t1 t2 rest where
    t1: "initChoicesFromCornerLabel (set_corner_label l t) = Inr t1"
    and t2: "(if good t1 then generateLabelsFromCornerLabel t1 else Inr t1) = Inr t2"
    and rest: "labelInner ts ls = Inr rest" and ts': "ts' = t2 # rest"
    by (auto simp: bindE_Inr)
  have "corners t2 = corners t1"
    using t2 generate_fields [of t1 t2] by (cases "good t1") auto
  with initChoices_fields [OF t1] "3.IH" [OF rest] ts' show ?case by simp
qed

lemma labelInner_length: "labelInner ts ls = Inr ts' \<Longrightarrow> length ts' = length ts"
  using labelInner_corners [of ts ls ts'] by (metis length_map)

lemma labelInner_perm:
  "labelInner ts ls = Inr ts' \<Longrightarrow> list_all is_permutation ls \<Longrightarrow> list_all labels_ok ts \<Longrightarrow>
   list_all (\<lambda>c. is_permutation (corner_label c) \<and> labels_ok c) ts'"
proof (induction ts ls arbitrary: ts' rule: labelInner.induct)
  case (1 ls)
  then show ?case by simp
next
  case (2 t ts)
  then show ?case by simp
next
  case (3 t ts l ls)
  from "3.prems"(1) obtain t1 t2 rest where
    t1: "initChoicesFromCornerLabel (set_corner_label l t) = Inr t1"
    and t2: "(if good t1 then generateLabelsFromCornerLabel t1 else Inr t1) = Inr t2"
    and rest: "labelInner ts ls = Inr rest" and ts': "ts' = t2 # rest"
    by (auto simp: bindE_Inr)
  from initChoices_fields [OF t1] have f1: "labels t1 = labels t" "corner_label t1 = l"
    "corners t1 = corners t"
    by simp_all
  have pl: "is_permutation l" using "3.prems"(2) by simp
  have ok1: "labels_ok t1" using "3.prems"(3) f1 by (simp add: labels_ok_def)
  have c2: "is_permutation (corner_label t2) \<and> labels_ok t2"
  proof (cases "good t1")
    case True
    then have g: "generateLabelsFromCornerLabel t1 = Inr t2" using t2 by simp
    from generate_keeps_perm [of t1] pl f1 g have "labels_ok t2 \<and> corner_label t2 = l"
      by auto
    then show ?thesis using pl by simp
  next
    case False
    then show ?thesis using t2 ok1 f1 pl by auto
  qed
  from "3.IH" [OF rest] "3.prems"(2,3)
  have "list_all (\<lambda>c. is_permutation (corner_label c) \<and> labels_ok c) rest"
    by simp
  with c2 ts' show ?case by simp
qed

lemma Triangle_new_fields:
  assumes "Triangle_new S pt1 pt2 pt3 nm = Inr t"
  shows "labels t = default_labels" "corners t = [pt1, pt2, pt3]" "inner_triangles t = []"
    "corner_label t = ''AAA''" "good t = False" "name t = nm" "choices t = None"
    "all_points t = mid_points t @ corners t @ [barycentre_pt t]"
    "initPointsFromCorners S [pt1, pt2, pt3] = Inr (mid_points t, barycentre_pt t)"
  using assms by (auto simp: Triangle_new_def bindE_Inr Let_def)

lemma Triangle_new_labels_ok: "Triangle_new S pt1 pt2 pt3 nm = Inr t \<Longrightarrow> labels_ok t"
  using Triangle_new_fields(1) [of S pt1 pt2 pt3 nm t] default_labels_perm
  by (simp add: labels_ok_def default_labels_def)

lemma initInner_children:
  assumes ok: "initInnerTriangles S t = Inr t'"
  shows "\<exists>c0 c1 c2 m0 m1 m2. corners t = [c0, c1, c2] \<and> mid_points t = [m0, m1, m2]
     \<and> t' = set_inner_triangles (inner_triangles t') t \<and> length (inner_triangles t') = 6
     \<and> map corners (inner_triangles t') =
         [[c0, m0, barycentre_pt t], [m0, c1, barycentre_pt t],
          [barycentre_pt t, c1, m1], [barycentre_pt t, m1, c2],
          [m2, barycentre_pt t, c2], [c0, barycentre_pt t, m2]]
     \<and> (list_all is_permutation (labels t) \<longrightarrow>
           list_all (\<lambda>c. is_permutation (corner_label c) \<and> labels_ok c)
             (inner_triangles t'))"
proof -
  from ok obtain c0 c1 c2 m0 m1 m2 where c: "corners t = [c0, c1, c2]"
    and m: "mid_points t = [m0, m1, m2]"
    by (auto simp: initInnerTriangles_def split: list.splits)
  let ?b = "barycentre_pt t"
  from ok c m obtain t0 t1 t2 t3 t4 t5 ts where
    n: "Triangle_new S c0 m0 ?b (name t @ ''0'') = Inr t0"
       "Triangle_new S m0 c1 ?b (name t @ ''1'') = Inr t1"
       "Triangle_new S ?b c1 m1 (name t @ ''2'') = Inr t2"
       "Triangle_new S ?b m1 c2 (name t @ ''3'') = Inr t3"
       "Triangle_new S m2 ?b c2 (name t @ ''4'') = Inr t4"
       "Triangle_new S c0 ?b m2 (name t @ ''5'') = Inr t5"
    and li: "labelInner [t0, t1, t2, t3, t4, t5] (labels t) = Inr ts"
    and t': "t' = set_inner_triangles ts t"
    by (auto simp: initInnerTriangles_def bindE_Inr Let_def)
  have cs: "map corners [t0, t1, t2, t3, t4, t5] = [[c0, m0, ?b], [m0, c1, ?b],
          [?b, c1, m1], [?b, m1, c2], [m2, ?b, c2], [c0, ?b, m2]]"
    using n [THEN Triangle_new_fields(2)] by simp
  have oks: "list_all labels_ok [t0, t1, t2, t3, t4, t5]"
    using n [THEN Triangle_new_labels_ok] by simp
  have len: "length ts = 6"
    using labelInner_length [OF li] by simp
  have mc: "map corners ts = map corners [t0, t1, t2, t3, t4, t5]"
    using labelInner_corners [OF li] .
  have "list_all is_permutation (labels t) \<longrightarrow>
           list_all (\<lambda>c. is_permutation (corner_label c) \<and> labels_ok c) ts"
    using labelInner_perm [OF li] oks by blast
  with c m t' len mc cs show ?thesis by simp
qed


lemma descends_children:
  "descends S u \<Longrightarrow>
     list_all (\<lambda>c. is_permutation (corner_label c) \<and> labels_ok c) (inner_triangles u)"
proof (induction rule: descends.induct)
  case (root pt1 pt2 pt3 nm t)
  then obtain t0 where n: "Triangle_new S pt1 pt2 pt3 nm = Inr t0"
    and i: "initInnerTriangles S t0 = Inr t"
    by (auto simp: Triangle_init_def bindE_Inr)
  from Triangle_new_labels_ok [OF n] initInner_children [OF i] show ?case
    by (auto simp: labels_ok_def)
next
  case (step t c c')
  from step.hyps(2) obtain rest where "filter good (inner_triangles t) = c # rest"
    by (auto simp: getGoodInnerTriangle_def split: list.splits)
  then have "c \<in> set (filter good (inner_triangles t))" by simp
  then have "c \<in> set (inner_triangles t)" by simp
  with step.IH have "labels_ok c" by (auto simp: list_all_iff)
  with initInner_children [OF step.hyps(3)] show ?case
    by (auto simp: labels_ok_def)
qed

lemma mainLoop_descends:
  "descends S tri \<Longrightarrow> descends S (final_triangle (mainLoop S tri i last_bary))"
proof (induction S tri i last_bary rule: mainLoop.induct)
  case (1 S tri i last_bary)
  show ?case
  proof (cases "loopBody S tri")
    case (Inl e)
    then show ?thesis using "1.prems" by (subst mainLoop.simps) simp
  next
    case (Inr t')
    then obtain c where "getGoodInnerTriangle tri = Inr c" "initInnerTriangles S c = Inr t'"
      by (auto simp: loopBody_def bindE_Inr)
    with "1.prems" have d: "descends S t'" by (rule descends.step)
    show ?thesis
    proof (cases "Point_eq (barycentre_pt t') last_bary")
      case (Inl e)
      then show ?thesis using Inr d by (subst mainLoop.simps) (simp add: Let_def)
    next
      case same: (Inr same)
      show ?thesis
      proof (cases "same \<or> max_iter < i + 1")
        case True
        then show ?thesis using Inr same d by (subst mainLoop.simps) (auto simp: Let_def)
      next
        case False
        with "1.IH" [OF Inr refl same] d
        have "descends S (final_triangle (mainLoop S t' (i + 1) (barycentre_pt t')))"
          by simp
        then show ?thesis using Inr same False by (subst mainLoop.simps) (simp add: Let_def)
      qed
    qed
  qed
qed

text \<open>
  Claim C9. Each of the six default labels is a permutation of the housemates.
  Propagation from a permutation label returns (it does not raise) and leaves six
  labels that are permutations again. Hence, for every triangle \<open>u\<close> the main program
  holds in \<^verbatim>\<open>initial_triangle\<close>, every child of \<open>u\<close> has a permutation as corner label and
  permutations as labels, and propagation on it does not raise; the triangle the driver
  ends with is such a \<open>u\<close>.
\<close>

theorem labels_stay_permutations:
  "list_all is_permutation default_labels
   \<and> (is_permutation (corner_label t) \<longrightarrow>
        (\<exists>t'. generateLabelsFromCornerLabel t = Inr t' \<and> length (labels t') = 6
           \<and> list_all is_permutation (labels t')))
   \<and> (descends S u \<longrightarrow>
        list_all (\<lambda>c. is_permutation (corner_label c) \<and> list_all is_permutation (labels c)
                    \<and> generateLabelsFromCornerLabel c \<noteq> Inl NonDistinctLabels)
          (inner_triangles u))
   \<and> (main S = Inr r \<longrightarrow> descends S (final_triangle r))"
proof (intro conjI impI)
  show "list_all is_permutation default_labels" by (rule default_labels_perm)
next
  assume "is_permutation (corner_label t)"
  from generate_keeps_perm [OF this]
  show "\<exists>t'. generateLabelsFromCornerLabel t = Inr t' \<and> length (labels t') = 6
           \<and> list_all is_permutation (labels t')"
    by (auto simp: labels_ok_def)
next
  assume "descends S u"
  from descends_children [OF this]
  have a: "list_all (\<lambda>c. is_permutation (corner_label c) \<and> labels_ok c) (inner_triangles u)" .
  have "generateLabelsFromCornerLabel c \<noteq> Inl NonDistinctLabels"
    if "is_permutation (corner_label c)" for c
    using generate_keeps_perm [OF that] by auto
  with a show "list_all (\<lambda>c. is_permutation (corner_label c)
                    \<and> list_all is_permutation (labels c)
                    \<and> generateLabelsFromCornerLabel c \<noteq> Inl NonDistinctLabels)
          (inner_triangles u)"
    by (auto simp: list_all_iff labels_ok_def)
next
  assume "main S = Inr r"
  then obtain p1 p2 p3 t0 where t0: "Triangle_init S p1 p2 p3 True [] = Inr t0"
    and r: "r = mainLoop S t0 1 (barycentre_pt t0)"
    by (auto simp: main_def bindE_Inr)
  from t0 have "descends S t0" by (rule descends.root)
  then show "descends S (final_triangle r)" unfolding r by (rule mainLoop_descends)
qed

theorem labels_stay_permutations_witness:
  "is_permutation (corner_label ex_child3)
   \<and> (\<exists>t'. generateLabelsFromCornerLabel ex_child3 = Inr t' \<and> length (labels t') = 6
           \<and> list_all is_permutation (labels t'))
   \<and> (\<exists>u. descends strategies u
         \<and> list_all (\<lambda>c. is_permutation (corner_label c) \<and> list_all is_permutation (labels c)
                    \<and> generateLabelsFromCornerLabel c \<noteq> Inl NonDistinctLabels)
          (inner_triangles u))
   \<and> (\<exists>r. main strategies = Inr r \<and> descends strategies (final_triangle r))"
proof -
  have p: "is_permutation (corner_label ex_child3)"
    by (auto simp: ex_child3_def is_permutation_def housemates_def)
  obtain u where u: "Triangle_init strategies ex_p1 ex_p2 ex_p3 True [] = Inr u"
    using ex_root_subdivides by blast
  then have d: "descends strategies u" by (rule descends.root)
  have pts: "Point_init strategies [0, 0, total_rent] = Inr ex_p1"
    "Point_init strategies [0, total_rent, 0] = Inr ex_p2"
    "Point_init strategies [total_rent, 0, 0] = Inr ex_p3"
    by (simp_all add: eval_defs ex_defs)
  have m: "main strategies = Inr (mainLoop strategies u 1 (barycentre_pt u))"
    by (simp add: main_def pts u)
  from labels_stay_permutations [of ex_child3 strategies u
      "mainLoop strategies u 1 (barycentre_pt u)"] p d m
  show ?thesis by blast
qed

section \<open>Choices and the good flag\<close>

text \<open>
  Claim C8. For a triangle with the three-element label \<open>(l0, l1, l2)\<close> and corners
  \<open>(c0, c1, c2)\<close>, where corner \<open>i\<close> caches the decision \<open>di\<close> for housemate \<open>li\<close>,
  \<^verbatim>\<open>initChoicesFromCornerLabel\<close> stores exactly these cached decisions as \<^verbatim>\<open>choices\<close>, in
  this order (no strategy is asked: the function has no access to any), sets \<^verbatim>\<open>good\<close>
  to whether every room occurs among the choices, and changes nothing else.
\<close>

theorem labeling_outcome:
  assumes "corner_label t = [l0, l1, l2]" and "corners t = [c0, c1, c2]"
    and "map_of (decisions c0) l0 = Some d0"
    and "map_of (decisions c1) l1 = Some d1"
    and "map_of (decisions c2) l2 = Some d2"
  shows "\<exists>t'. initChoicesFromCornerLabel t = Inr t'
           \<and> choices t' = Some [d0, d1, d2]
           \<and> good t' = (\<forall>room \<in> set rooms. Some room \<in> set [d0, d1, d2])
           \<and> t' = set_choices_good [d0, d1, d2] (good t') t"
  using assms by (simp add: initChoicesFromCornerLabel_def list_all_iff)

theorem labeling_outcome_witness:
  "initChoicesFromCornerLabel ex_child3
     = Inr (set_choices_good [Some 1, Some 3, Some 2] True ex_child3)
   \<and> initChoicesFromCornerLabel (set_corner_label ''ABC'' ex_root)
     = Inr (set_choices_good [Some 1, Some 1, Some 2] False (set_corner_label ''ABC'' ex_root))"
proof -
  have a: "corner_label ex_child3 = ''CBA''" "corners ex_child3 = [ex_b, ex_m1, ex_p3]"
    "map_of (decisions ex_b) (CHR ''C'') = Some (Some 1)"
    "map_of (decisions ex_m1) (CHR ''B'') = Some (Some 3)"
    "map_of (decisions ex_p3) (CHR ''A'') = Some (Some 2)"
    by (simp_all add: ex_child3_def ex_defs)
  have b: "corner_label (set_corner_label ''ABC'' ex_root) = ''ABC''"
    "corners (set_corner_label ''ABC'' ex_root) = [ex_p1, ex_p2, ex_p3]"
    "map_of (decisions ex_p1) (CHR ''A'') = Some (Some 1)"
    "map_of (decisions ex_p2) (CHR ''B'') = Some (Some 1)"
    "map_of (decisions ex_p3) (CHR ''C'') = Some (Some 2)"
    by (simp_all add: ex_root_def ex_defs)
  from labeling_outcome [OF a] labeling_outcome [OF b] show ?thesis
    by (auto simp: rooms_def)
qed

section \<open>The capped strategy\<close>

lemma capScan_none:
  "\<forall>i \<in> set ord. \<exists>c cap. py_get cs (i - 1) = Inr c \<and> map_of (caps p) i = Some cap \<and> \<not> c < cap
   \<Longrightarrow> capScan p cs ord = Inr None"
  by (induction ord) auto

lemma capStrategy_none:
  assumes "0 \<notin> set cs \<or> py_get cs (favorite p - 1) = Inr 0"
    and "\<forall>i \<in> set (order p). \<exists>c cap. py_get cs (i - 1) = Inr c \<and> map_of (caps p) i = Some cap
           \<and> \<not> c < cap"
  shows "makeCapStrategy p cs = Inr None"
  using assms capScan_none [of "order p" cs p]
  by (auto simp: makeCapStrategy_def capStrategy_def)

text \<open>
  Claim C1, at a failing input. \<^verbatim>\<open>Point(499.9996, 499.9996, 0.01)\<close> is a valid point; it
  stores the coordinates \<open>(500, 500, 0.01)\<close>, none of which is zero, and no room of the
  order \<open>[1, 2, 3]\<close> is priced strictly below its cap \<open>(500, 500, 0)\<close>. The strategy built
  by \<^verbatim>\<open>makeCapStrategy(capA)\<close> does not raise there: it returns \<^verbatim>\<open>None\<close>, which the point
  caches as the decision of housemate \<open>A\<close>.
\<close>

theorem capped_order_returns_none:
  "Point_init strategies [4999996 / 10000, 4999996 / 10000, 1 / 100] = Inr ex_capped
   \<and> 0 \<notin> set (coords ex_capped)
   \<and> \<not> coords ex_capped ! 0 < 500 \<and> \<not> coords ex_capped ! 1 < 500 \<and> \<not> coords ex_capped ! 2 < 0
   \<and> makeCapStrategy capA (coords ex_capped) = Inr None
   \<and> map_of (decisions ex_capped) (CHR ''A'') = Some None"
  by (simp add: eval_defs ex_defs)

section \<open>Validation and normalisation of coordinates\<close>

lemma round_half_even_bound: "\<bar>of_int (round_half_even y) - y\<bar> \<le> 1 / 2"
proof -
  have "of_int \<lfloor>y\<rfloor> \<le> y" "y < of_int \<lfloor>y\<rfloor> + 1" by linarith+
  then show ?thesis
    by (auto simp: round_half_even_def Let_def)
qed

lemma py_round_bound: "\<bar>py_round x ROUNDING - x\<bar> \<le> (1 / 10) ^ ROUNDING"
proof -
  have "\<bar>of_int (round_half_even (x * 1000)) - x * 1000\<bar> \<le> 1 / 2"
    by (rule round_half_even_bound)
  then have "\<bar>of_int (round_half_even (x * 1000)) / 1000 - x\<bar> \<le> 1 / 2000"
    by (simp add: abs_le_iff field_simps)
  then show ?thesis by (simp add: py_round_def ROUNDING_def power3_eq_cube)
qed

lemma normalise_bound:
  "0 \<le> x \<Longrightarrow> \<bar>normalise x - x\<bar> \<le> (if x < EPS then EPS else (1 / 10) ^ ROUNDING)"
  using py_round_bound [of x] by (simp add: normalise_def)

lemma normalise_sum_bound:
  "\<forall>x \<in> set cs. 0 \<le> x \<Longrightarrow>
   \<bar>sum_list (map normalise cs) - sum_list cs\<bar>
     \<le> real (length (filter (\<lambda>x. x < EPS) cs)) * EPS
       + real (length (filter (\<lambda>x. \<not> x < EPS) cs)) * (1 / 10) ^ ROUNDING"
proof (induction cs)
  case Nil
  then show ?case by simp
next
  case (Cons x cs)
  then have "0 \<le> x" by simp
  from normalise_bound [OF this] Cons show ?case
    by (cases "x < EPS") (simp_all add: algebra_simps abs_le_iff)
qed

lemma min_list_nonneg: "cs \<noteq> [] \<Longrightarrow> \<forall>x \<in> set cs. 0 \<le> (x :: real) \<Longrightarrow> \<not> min_list cs < 0"
  using min_list_Min [of cs] by (simp add: not_less)

lemma queryAll_ok:
  assumes "\<forall>h \<in> set hs. \<exists>r. query S cs h = Inr r"
  shows "\<exists>ds. queryAll S cs hs = Inr ds \<and> map fst ds = hs"
  using assms by (induction hs) auto

lemma never_raise_query:
  "never_raise S \<Longrightarrow> length cs = length rooms \<Longrightarrow> h \<in> set housemates \<Longrightarrow>
   \<exists>r. query S cs h = Inr r"
  by (fastforce simp: never_raise_def query_def)

lemma Point_init_ok:
  assumes S: "never_raise S" and len: "length cs = length rooms"
    and sum: "\<bar>sum_list cs - total_rent\<bar> \<le> EPS" and pos: "\<forall>x \<in> set cs. 0 \<le> x"
  shows "\<exists>ds. Point_init S cs = Inr \<lparr>coords = map normalise cs, decisions = ds\<rparr>
     \<and> map fst ds = housemates"
proof -
  have ne: "cs \<noteq> []" using len by (auto simp: rooms_def)
  have "\<forall>h \<in> set housemates. \<exists>r. query S (map normalise cs) h = Inr r"
    using never_raise_query [OF S, of "map normalise cs"] len by simp
  from queryAll_ok [OF this] obtain ds where
    "queryAll S (map normalise cs) housemates = Inr ds" "map fst ds = housemates"
    by blast
  then show ?thesis
    using len sum min_list_nonneg [OF ne pos] by (simp add: Point_init_def Let_def)
qed

lemma py_index_less: "v \<in> set xs \<Longrightarrow> py_index xs v < length xs"
  by (induction xs) auto

lemma list3: "length cs = length rooms \<Longrightarrow> \<exists>a b c. cs = [a, b, c]"
  by (auto simp: rooms_def length_Suc_conv)

lemma cheapskate_returns:
  assumes "length cs = length rooms"
  shows "\<exists>r. cheapskateStrategy cs = Inr r"
proof -
  have ne: "cs \<noteq> []" using assms by (auto simp: rooms_def)
  have "min_list cs \<in> set cs" using min_list_Min [OF ne] Min_in [of "set cs"] ne by simp
  then have "py_index cs (min_list cs) < length cs"
    by (rule py_index_less)
  then show ?thesis using ne assms
    by (simp add: cheapskateStrategy_def Let_def py_get_def)
qed

lemma capA_returns:
  assumes "length cs = length rooms"
  shows "\<exists>r. makeCapStrategy capA cs = Inr r"
proof -
  obtain a b c where cs: "cs = [a, b, c]"
    using list3 [OF assms] by blast
  show ?thesis unfolding cs
    by (auto simp: makeCapStrategy_def capStrategy_def capA_def py_get_def rooms_def
        intro!: cheapskate_returns)
qed

lemma strategies_never_raise: "never_raise strategies"
  using cheapskate_returns capA_returns
  by (simp add: never_raise_def strategies_def housemates_def)

text \<open>
  Claim C2, amended. For strategies that return, a coordinate sequence with one
  entry per room, no negative entry and a sum within \<open>EPS\<close> of \<open>total_rent\<close> is accepted by
  the constructor; the stored coordinates are the normalised ones, and their sum is
  within \<open>EPS + k * EPS + (R - k) * 10^-ROUNDING\<close> of \<open>total_rent\<close>, where \<open>k\<close> is the
  number of entries below \<open>EPS\<close> (those stored as zero) and \<open>R - k\<close> the number of
  the others (those rounded).
\<close>

theorem stored_sum_bound:
  assumes "never_raise S" and "length cs = length rooms"
    and "\<forall>x \<in> set cs. 0 \<le> x" and "\<bar>sum_list cs - total_rent\<bar> \<le> EPS"
  shows "\<exists>p. Point_init S cs = Inr p \<and> coords p = map normalise cs
     \<and> \<bar>sum_list (coords p) - total_rent\<bar>
        \<le> EPS + real (length (filter (\<lambda>x. x < EPS) cs)) * EPS
              + real (length (filter (\<lambda>x. \<not> x < EPS) cs)) * (1 / 10) ^ ROUNDING"
proof -
  from Point_init_ok [OF assms(1,2,4,3)] obtain ds where
    p: "Point_init S cs = Inr \<lparr>coords = map normalise cs, decisions = ds\<rparr>"
    by blast
  from normalise_sum_bound [OF assms(3)] assms(4)
  have "\<bar>sum_list (map normalise cs) - total_rent\<bar>
        \<le> EPS + real (length (filter (\<lambda>x. x < EPS) cs)) * EPS
              + real (length (filter (\<lambda>x. \<not> x < EPS) cs)) * (1 / 10) ^ ROUNDING"
    by linarith
  with p show ?thesis by simp
qed

theorem stored_sum_bound_witness:
  "\<exists>p. Point_init strategies [999982 / 1000, 9 / 1000, 9 / 1000] = Inr p
     \<and> coords p = [999982 / 1000, 0, 0]
     \<and> \<bar>sum_list (coords p) - total_rent\<bar> \<le> 31 / 1000"
proof -
  have a: "length [999982 / 1000, 9 / 1000, 9 / 1000 :: real] = length rooms"
    "\<forall>x \<in> set [999982 / 1000, 9 / 1000, 9 / 1000 :: real]. 0 \<le> x"
    "\<bar>sum_list [999982 / 1000, 9 / 1000, 9 / 1000] - total_rent\<bar> \<le> EPS"
    by (simp_all add: rooms_def total_rent_def EPS_def)
  from stored_sum_bound [OF strategies_never_raise a] show ?thesis
    by (simp add: normalise_def EPS_def ROUNDING_def py_round_def round_half_even_def
        power3_eq_cube)
qed

text \<open>
  The bound of claim C2 as stated, \<open>EPS + R * 10^-ROUNDING\<close>, fails at
  \<^verbatim>\<open>Point(999.982, 0.009, 0.009)\<close>: the input is valid, and the stored coordinates
  \<open>(999.982, 0, 0)\<close> are \<open>0.018\<close> away from \<open>total_rent\<close>, more than \<open>0.013\<close>.
\<close>

theorem stored_sum_counterexample:
  "length [999982 / 1000, 9 / 1000, 9 / 1000 :: real] = length rooms
   \<and> 0 \<le> min_list [999982 / 1000, 9 / 1000, 9 / 1000 :: real]
   \<and> \<bar>sum_list [999982 / 1000, 9 / 1000, 9 / 1000] - total_rent\<bar> \<le> EPS
   \<and> Point_init strategies [999982 / 1000, 9 / 1000, 9 / 1000] = Inr ex_snapped
   \<and> \<not> \<bar>sum_list (coords ex_snapped) - total_rent\<bar>
         \<le> EPS + real (length rooms) * (1 / 10) ^ ROUNDING"
  by (simp add: eval_defs ex_defs power3_eq_cube)

section \<open>Interpolation at the end points\<close>

text \<open>
  Claim C7, at a failing input. \<^verbatim>\<open>a = Point(999.982, 0.009, 0.009)\<close> and
  \<^verbatim>\<open>b = Point(0, 0, 1000)\<close> are validly constructed, yet \<^verbatim>\<open>a.findPoint(b, 0)\<close> and
  \<^verbatim>\<open>b.findPoint(a, 1)\<close> raise the exception of the sum check instead of returning a
  point equal to \<open>a\<close>: the stored coordinates of \<open>a\<close> no longer pass the constructor.
\<close>

theorem interpolate_endpoint_fails:
  "Point_init strategies [999982 / 1000, 9 / 1000, 9 / 1000] = Inr ex_snapped
   \<and> Point_init strategies [0, 0, 1000] = Inr ex_p1
   \<and> findPoint strategies ex_snapped ex_p1 0 = Inl TotalMismatch
   \<and> findPoint strategies ex_p1 ex_snapped 1 = Inl TotalMismatch"
  by (simp add: eval_defs ex_defs)

section \<open>Derived points of a triangle\<close>

lemma Point_init_Inr:
  assumes "Point_init S cs = Inr p"
  shows "coords p = map normalise cs" "length cs = length rooms" "length (coords p) = length rooms"
    "\<bar>sum_list cs - total_rent\<bar> \<le> EPS" "\<not> min_list cs < 0"
    "queryAll S (map normalise cs) housemates = Inr (decisions p)"
  using assms by (auto simp: Point_init_def Let_def bindE_Inr split: if_splits)

lemma findPoint_Inr:
  assumes "findPoint S p q t = Inr r"
  shows "coords r = map normalise (lerp p q t)" "length (coords p) = length rooms"
    "Point_init S (lerp p q t) = Inr r"
  using assms Point_init_Inr(1,2) [of S "lerp p q t" r]
  by (auto simp: findPoint_def lerp_def split: if_splits)

lemma initPoints_Inr:
  assumes "initPointsFromCorners S [c0, c1, c2] = Inr (ms, b)"
  shows "\<exists>m0 m1 m2. ms = [m0, m1, m2] \<and> findPoint S c0 c1 (1 / 2) = Inr m0
     \<and> findPoint S c1 c2 (1 / 2) = Inr m1 \<and> findPoint S c2 c0 (1 / 2) = Inr m2
     \<and> findPoint S c0 m1 (2 / 3) = Inr b"
  using assms by (auto simp: initPointsFromCorners_def bindE_Inr upt_rec py_get_def)

lemma lerp_mean:
  assumes m: "coords m1 = lerp c1 c2 (1 / 2)"
    and l: "length (coords c0) = length (coords c1)"
  shows "lerp c0 m1 (2 / 3) = arithmetic_mean c0 c1 c2"
proof -
  have "(1 - 2 / 3) * coords c0 ! i + 2 / 3 * coords m1 ! i
      = (coords c0 ! i + coords c1 ! i + coords c2 ! i) / 3"
    if "i < length (coords c0)" for i
    using that l by (simp add: m lerp_def field_simps)
  then show ?thesis by (simp add: lerp_def arithmetic_mean_def)
qed

lemma Triangle_init_new:
  assumes "Triangle_init S c0 c1 c2 initInner nm = Inr t"
  shows "\<exists>t0. Triangle_new S c0 c1 c2 nm = Inr t0 \<and> mid_points t = mid_points t0
     \<and> barycentre_pt t = barycentre_pt t0 \<and> corners t = corners t0"
proof -
  from assms obtain t0 where n: "Triangle_new S c0 c1 c2 nm = Inr t0"
    and i: "(if initInner then initInnerTriangles S t0 else Inr t0) = Inr t"
    by (auto simp: Triangle_init_def bindE_Inr)
  show ?thesis
  proof (cases initInner)
    case True
    with i have "initInnerTriangles S t0 = Inr t" by simp
    from initInner_children [OF this] have "t = set_inner_triangles (inner_triangles t) t0"
      by blast
    then have "mid_points t = mid_points t0 \<and> barycentre_pt t = barycentre_pt t0
       \<and> corners t = corners t0"
      by (metis set_fields(18,19,20))
    with n show ?thesis by simp
  next
    case False
    with i n show ?thesis by simp
  qed
qed

text \<open>
  Claim C5, amended. In every triangle the constructor builds (subdivided at once or
  not), \<^verbatim>\<open>mid_points[1]\<close> is the
  interpolation of corners 1 and 2 at \<open>t = 1/2\<close> and the barycentre is the interpolation
  of corner 0 toward \<^verbatim>\<open>mid_points[1]\<close> at \<open>t = 2/3\<close>; its stored coordinates are the
  normalised values of \<open>C0 / 3 + 2 * M1 / 3\<close>. This is no biased point: wherever the
  stored midpoint \<open>M1\<close> is exactly \<open>(C1 + C2) / 2\<close>, the coordinates before normalisation
  are exactly the arithmetic mean \<open>(C0 + C1 + C2) / 3\<close>.
\<close>

theorem barycentre_formula:
  assumes "Triangle_init S c0 c1 c2 initInner nm = Inr t"
  shows "\<exists>m0 m1 m2. corners t = [c0, c1, c2] \<and> mid_points t = [m0, m1, m2]
     \<and> findPoint S c1 c2 (1 / 2) = Inr m1
     \<and> findPoint S c0 m1 (2 / 3) = Inr (barycentre_pt t)
     \<and> coords (barycentre_pt t) = map normalise (lerp c0 m1 (2 / 3))
     \<and> (coords m1 = lerp c1 c2 (1 / 2) \<longrightarrow> lerp c0 m1 (2 / 3) = arithmetic_mean c0 c1 c2)"
proof -
  from Triangle_init_new [OF assms] obtain t0 where n: "Triangle_new S c0 c1 c2 nm = Inr t0"
    and same: "mid_points t = mid_points t0" "barycentre_pt t = barycentre_pt t0"
      "corners t = corners t0"
    by blast
  from initPoints_Inr [OF Triangle_new_fields(9) [OF n]] obtain m0 m1 m2 where
    ms: "mid_points t0 = [m0, m1, m2]" and f0: "findPoint S c0 c1 (1 / 2) = Inr m0"
    and f1: "findPoint S c1 c2 (1 / 2) = Inr m1"
    and f2: "findPoint S c2 c0 (1 / 2) = Inr m2"
    and fb: "findPoint S c0 m1 (2 / 3) = Inr (barycentre_pt t0)"
    by (elim exE conjE) (rule that)
  have l: "length (coords c0) = length (coords c1)"
    using findPoint_Inr(2) [OF f0] findPoint_Inr(2) [OF f1] by simp
  have mean: "coords m1 = lerp c1 c2 (1 / 2) \<longrightarrow> lerp c0 m1 (2 / 3) = arithmetic_mean c0 c1 c2"
    using lerp_mean [OF _ l] by blast
  have "corners t = [c0, c1, c2] \<and> mid_points t = [m0, m1, m2]
     \<and> findPoint S c1 c2 (1 / 2) = Inr m1
     \<and> findPoint S c0 m1 (2 / 3) = Inr (barycentre_pt t)
     \<and> coords (barycentre_pt t) = map normalise (lerp c0 m1 (2 / 3))
     \<and> (coords m1 = lerp c1 c2 (1 / 2) \<longrightarrow> lerp c0 m1 (2 / 3) = arithmetic_mean c0 c1 c2)"
    using ms f1 fb findPoint_Inr(1) [OF fb] mean same Triangle_new_fields(2) [OF n]
    by (intro conjI) simp_all
  then show ?thesis by (intro exI)
qed

theorem barycentre_formula_witness:
  "Triangle_init strategies ex_p1 ex_p2 ex_p3 False [] = Inr ex_root
   \<and> findPoint strategies ex_p2 ex_p3 (1 / 2) = Inr ex_m1
   \<and> findPoint strategies ex_p1 ex_m1 (2 / 3) = Inr ex_b
   \<and> coords ex_b = map normalise (lerp ex_p1 ex_m1 (2 / 3))
   \<and> coords ex_m1 = lerp ex_p2 ex_p3 (1 / 2)
   \<and> lerp ex_p1 ex_m1 (2 / 3) = arithmetic_mean ex_p1 ex_p2 ex_p3"
proof -
  have m: "coords ex_m1 = lerp ex_p2 ex_p3 (1 / 2)"
    by (simp add: lerp_def ex_defs upt_rec)
  have i: "Triangle_init strategies ex_p1 ex_p2 ex_p3 False [] = Inr ex_root"
    by (simp add: Triangle_init_def ex_root_built)
  from barycentre_formula [OF i] m i show ?thesis
    by (simp add: ex_root_def)
qed

text \<open>
  The second half of claim C5 as stated fails at the triangle with the corners
  \<^verbatim>\<open>Point(1000, 0, 0)\<close>, \<^verbatim>\<open>Point(400, 600, 0)\<close>, \<^verbatim>\<open>Point(400, 0, 600)\<close>: its barycentre has
  the coordinates \<open>(600, 200, 200)\<close>, which is the arithmetic mean of the three corners.
\<close>

theorem barycentre_is_mean_counterexample:
  "Point_init strategies [1000, 0, 0] = Inr ex_p3
   \<and> Point_init strategies [400, 600, 0] = Inr ex_c1
   \<and> Point_init strategies [400, 0, 600] = Inr ex_c2
   \<and> map_sum id (coords \<circ> barycentre_pt) (Triangle_new strategies ex_p3 ex_c1 ex_c2 [])
       = Inr (arithmetic_mean ex_p3 ex_c1 ex_c2)"
  by (simp add: eval_defs ex_defs arithmetic_mean_def)

section \<open>Subdivision\<close>

text \<open>
  Claim C4, amended. Whenever \<^verbatim>\<open>initInnerTriangles\<close> returns on a triangle with corners
  \<open>C0, C1, C2\<close>, stored midpoints \<open>M0, M1, M2\<close> and barycentre \<open>B\<close>, it has created
  exactly six children, with the corner triples \<open>(C0, M0, B)\<close>, \<open>(M0, C1, B)\<close>,
  \<open>(B, C1, M1)\<close>, \<open>(B, M1, C2)\<close>, \<open>(M2, B, C2)\<close>, \<open>(C0, B, M2)\<close> in this order, so every
  corner of a child is a corner, a midpoint or the barycentre of the parent; and where
  the stored points are the ones the constructor derived, \<open>M0, M1, M2\<close> are the
  midpoints of the edges \<open>C0-C1\<close>, \<open>C1-C2\<close>, \<open>C2-C0\<close>.
\<close>

theorem subdivide_children:
  assumes "initInnerTriangles S t = Inr t'"
  shows "\<exists>c0 c1 c2 m0 m1 m2. corners t = [c0, c1, c2] \<and> mid_points t = [m0, m1, m2]
     \<and> length (inner_triangles t') = 6
     \<and> map corners (inner_triangles t') =
         [[c0, m0, barycentre_pt t], [m0, c1, barycentre_pt t],
          [barycentre_pt t, c1, m1], [barycentre_pt t, m1, c2],
          [m2, barycentre_pt t, c2], [c0, barycentre_pt t, m2]]
     \<and> (\<forall>ch \<in> set (inner_triangles t').
           set (corners ch) \<subseteq> set (corners t) \<union> set (mid_points t) \<union> {barycentre_pt t})
     \<and> (initPointsFromCorners S (corners t) = Inr (mid_points t, barycentre_pt t) \<longrightarrow>
           findPoint S c0 c1 (1 / 2) = Inr m0 \<and> findPoint S c1 c2 (1 / 2) = Inr m1
           \<and> findPoint S c2 c0 (1 / 2) = Inr m2
           \<and> findPoint S c0 m1 (2 / 3) = Inr (barycentre_pt t))"
proof -
  from initInner_children [OF assms] obtain c0 c1 c2 m0 m1 m2 where
    c: "corners t = [c0, c1, c2]" and m: "mid_points t = [m0, m1, m2]"
    and len: "length (inner_triangles t') = 6"
    and mc: "map corners (inner_triangles t') =
         [[c0, m0, barycentre_pt t], [m0, c1, barycentre_pt t],
          [barycentre_pt t, c1, m1], [barycentre_pt t, m1, c2],
          [m2, barycentre_pt t, c2], [c0, barycentre_pt t, m2]]"
    by (elim exE conjE) (rule that)
  have sub: "set (corners ch) \<subseteq> set (corners t) \<union> set (mid_points t) \<union> {barycentre_pt t}"
    if "ch \<in> set (inner_triangles t')" for ch
  proof -
    from that have "corners ch \<in> set (map corners (inner_triangles t'))" by simp
    then show ?thesis unfolding mc c m by auto
  qed
  have geo: "initPointsFromCorners S (corners t) = Inr (mid_points t, barycentre_pt t) \<longrightarrow>
           findPoint S c0 c1 (1 / 2) = Inr m0 \<and> findPoint S c1 c2 (1 / 2) = Inr m1
           \<and> findPoint S c2 c0 (1 / 2) = Inr m2
           \<and> findPoint S c0 m1 (2 / 3) = Inr (barycentre_pt t)"
  proof
    assume "initPointsFromCorners S (corners t) = Inr (mid_points t, barycentre_pt t)"
    then have "initPointsFromCorners S [c0, c1, c2] = Inr ([m0, m1, m2], barycentre_pt t)"
      by (simp add: c m)
    from initPoints_Inr [OF this]
    show "findPoint S c0 c1 (1 / 2) = Inr m0 \<and> findPoint S c1 c2 (1 / 2) = Inr m1
           \<and> findPoint S c2 c0 (1 / 2) = Inr m2
           \<and> findPoint S c0 m1 (2 / 3) = Inr (barycentre_pt t)"
      by simp
  qed
  have all: "\<forall>ch \<in> set (inner_triangles t').
           set (corners ch) \<subseteq> set (corners t) \<union> set (mid_points t) \<union> {barycentre_pt t}"
    using sub by (intro ballI)
  have "corners t = [c0, c1, c2] \<and> mid_points t = [m0, m1, m2]
     \<and> length (inner_triangles t') = 6
     \<and> map corners (inner_triangles t') =
         [[c0, m0, barycentre_pt t], [m0, c1, barycentre_pt t],
          [barycentre_pt t, c1, m1], [barycentre_pt t, m1, c2],
          [m2, barycentre_pt t, c2], [c0, barycentre_pt t, m2]]
     \<and> (\<forall>ch \<in> set (inner_triangles t').
           set (corners ch) \<subseteq> set (corners t) \<union> set (mid_points t) \<union> {barycentre_pt t})
     \<and> (initPointsFromCorners S (corners t) = Inr (mid_points t, barycentre_pt t) \<longrightarrow>
           findPoint S c0 c1 (1 / 2) = Inr m0 \<and> findPoint S c1 c2 (1 / 2) = Inr m1
           \<and> findPoint S c2 c0 (1 / 2) = Inr m2
           \<and> findPoint S c0 m1 (2 / 3) = Inr (barycentre_pt t))"
    using c m len mc all geo by (intro conjI)
  then show ?thesis by (intro exI)
qed

theorem subdivide_children_witness:
  "\<exists>t'. initInnerTriangles strategies ex_root = Inr t'
     \<and> length (inner_triangles t') = 6
     \<and> map corners (inner_triangles t') =
         [[ex_p1, ex_m0, ex_b], [ex_m0, ex_p2, ex_b], [ex_b, ex_p2, ex_m1],
          [ex_b, ex_m1, ex_p3], [ex_m2, ex_b, ex_p3], [ex_p1, ex_b, ex_m2]]
     \<and> findPoint strategies ex_p1 ex_p2 (1 / 2) = Inr ex_m0
     \<and> findPoint strategies ex_p2 ex_p3 (1 / 2) = Inr ex_m1
     \<and> findPoint strategies ex_p3 ex_p1 (1 / 2) = Inr ex_m2"
proof -
  obtain t' where t': "initInnerTriangles strategies ex_root = Inr t'"
    using ex_root_subdivides by (auto simp: Triangle_init_def ex_root_built)
  have g: "initPointsFromCorners strategies (corners ex_root)
      = Inr (mid_points ex_root, barycentre_pt ex_root)"
    using Triangle_new_fields(9) [OF ex_root_built] by (simp add: ex_root_def)
  from subdivide_children [OF t'] g t' show ?thesis
    by (auto simp: ex_root_def)
qed

text \<open>
  Claim C4 as stated, for every triangle, fails at
  \<^verbatim>\<open>Triangle(Point(999.982, 0.009, 0.009), Point(0, 1000, 0), Point(0, 0, 1000))\<close>: the three
  points and the triangle are built without error, but \<^verbatim>\<open>initInnerTriangles\<close> raises the
  exception of the sum check while it builds the first child, and creates no children.
\<close>

theorem subdivide_fails_counterexample:
  "Point_init strategies [999982 / 1000, 9 / 1000, 9 / 1000] = Inr ex_snapped
   \<and> Point_init strategies [0, 1000, 0] = Inr ex_p2
   \<and> Point_init strategies [0, 0, 1000] = Inr ex_p1
   \<and> Triangle_init strategies ex_snapped ex_p2 ex_p1 False [] = Inr ex_bad
   \<and> initInnerTriangles strategies ex_bad = Inl TotalMismatch"
  by (simp add: eval_defs ex_defs ex_bad_def)

section \<open>Interpolation where the constructor accepts the end point\<close>

text \<open>
  Normalising twice changes nothing, so a point whose stored coordinates still pass
  the checks of the constructor is returned unchanged by an interpolation at \<open>t = 0\<close>
  (and at \<open>t = 1\<close> for the other point).
\<close>

lemma round_half_even_of_int: "round_half_even (of_int k) = k"
  by (simp add: round_half_even_def)

lemma round_half_even_ge: "of_int n \<le> y \<Longrightarrow> n \<le> round_half_even y"
proof -
  assume "of_int n \<le> y"
  then have "n \<le> \<lfloor>y\<rfloor>" by (simp add: le_floor_iff)
  then show ?thesis by (auto simp: round_half_even_def Let_def)
qed

lemma normalise_idem: "normalise (normalise x) = normalise x"
proof (cases "x < EPS")
  case True
  then show ?thesis by (simp add: normalise_def EPS_def)
next
  case False
  then have "of_int 10 \<le> x * 1000" by (simp add: EPS_def)
  from round_half_even_ge [OF this] have k: "10 \<le> round_half_even (x * 1000)" .
  then have "\<not> real_of_int (round_half_even (x * 1000)) / 1000 < EPS"
    by (simp add: EPS_def)
  then show ?thesis using False
    by (simp add: normalise_def py_round_def ROUNDING_def round_half_even_of_int)
qed

lemma lerp_ends:
  "lerp a b 0 = coords a"
  "length (coords a) = length (coords b) \<Longrightarrow> lerp a b 1 = coords b"
  by (simp_all add: lerp_def map_nth)

lemma Point_init_again:
  assumes "Point_init S cs = Inr a" and "Point_init S (coords a) = Inr p"
  shows "p = a"
proof -
  have "map normalise (coords a) = map normalise (map normalise cs)"
    using Point_init_Inr(1) [OF assms(1)] by simp
  also have "\<dots> = map normalise cs"
    by (simp add: normalise_idem)
  also have "\<dots> = coords a"
    using Point_init_Inr(1) [OF assms(1)] by simp
  finally have c: "map normalise (coords a) = coords a" .
  have "coords p = coords a"
    using Point_init_Inr(1) [OF assms(2)] c by simp
  moreover have "decisions p = decisions a"
  proof -
    have "queryAll S (coords a) housemates = Inr (decisions p)"
      using Point_init_Inr(6) [OF assms(2)] by (simp only: c)
    moreover have "queryAll S (coords a) housemates = Inr (decisions a)"
      using Point_init_Inr(6) [OF assms(1)] by (simp only: Point_init_Inr(1) [OF assms(1)])
    ultimately show ?thesis by simp
  qed
  ultimately show ?thesis by simp
qed

lemma Point_eq_refl: "Point_eq a a = Inr True"
  by (simp add: Point_eq_def EPS_def list_all_iff)

lemma endpoint_when_accepted:
  assumes a: "Point_init S ca = Inr a" and b: "Point_init S cb = Inr b"
  shows "findPoint S a b 0 = Inr p \<Longrightarrow> p = a \<and> Point_eq p a = Inr True"
    and "findPoint S a b 1 = Inr q \<Longrightarrow> q = b \<and> Point_eq q b = Inr True"
proof -
  have l: "length (coords a) = length (coords b)"
    using Point_init_Inr(3) [OF a] Point_init_Inr(3) [OF b] by simp
  show "findPoint S a b 0 = Inr p \<Longrightarrow> p = a \<and> Point_eq p a = Inr True"
    using Point_init_again [OF a, of p] findPoint_Inr(3) [of S a b 0 p]
    by (simp add: lerp_ends Point_eq_refl)
  show "findPoint S a b 1 = Inr q \<Longrightarrow> q = b \<and> Point_eq q b = Inr True"
    using Point_init_again [OF b, of q] findPoint_Inr(3) [of S a b 1 q] l
    by (simp add: lerp_ends Point_eq_refl)
qed

section \<open>The driver terminates\<close>

lemma queryAll_decide:
  assumes "never_raise S" and "length cs = length rooms"
  shows "queryAll S cs housemates = Inr (decide_all S cs)"
    and "map fst (decide_all S cs) = housemates"
proof -
  have "\<forall>h \<in> set housemates. \<exists>r. query S cs h = Inr r"
    using never_raise_query [OF assms] by blast
  from queryAll_ok [OF this] obtain ds where
    ds: "queryAll S cs housemates = Inr ds" "map fst ds = housemates" by blast
  then show "queryAll S cs housemates = Inr (decide_all S cs)"
    and "map fst (decide_all S cs) = housemates"
    by (simp_all add: decide_all_def)
qed

lemma Point_init_eval:
  assumes "never_raise S" and "length cs = length rooms"
  shows "Point_init S cs =
     (if EPS < \<bar>sum_list cs - total_rent\<bar> then Inl TotalMismatch
      else if min_list cs < 0 then Inl NegativeValues
      else Inr (mkPoint S (map normalise cs)))"
  using assms queryAll_decide(1) [OF assms(1), of "map normalise cs"]
  by (simp add: Point_init_def Let_def mkPoint_def)

lemma mkPoint_fields [simp]: "coords (mkPoint S cs) = cs"
  by (simp add: mkPoint_def)

lemma mkPoint_keys:
  "never_raise S \<Longrightarrow> length cs = length rooms \<Longrightarrow> map fst (decisions (mkPoint S cs)) = housemates"
  by (simp add: mkPoint_def queryAll_decide(2))

lemma readChoices_ok:
  assumes "length l \<le> length cs" and "set l \<subseteq> set housemates"
    and "\<forall>c \<in> set cs. map fst (decisions c) = housemates"
  shows "\<exists>chs. readChoices cs l = Inr chs"
  using assms
proof (induction cs l rule: readChoices.induct)
  case (1 cs)
  then show ?case by simp
next
  case (2 l ls)
  then show ?case by simp
next
  case (3 c cs l ls)
  have "l \<in> fst ` set (decisions c)"
    using "3.prems"(2,3) by (metis list.set_intros(1) list.set_map subsetD)
  then obtain d where d: "map_of (decisions c) l = Some d"
    by (metis domD dom_map_of_conv_image_fst)
  from "3.IH" [OF d] "3.prems" obtain chs where "readChoices cs ls = Inr chs" by auto
  with d show ?case by simp
qed

lemma labelInner_ok:
  assumes "list_all is_permutation ls" and "length ts \<le> length ls"
    and "\<forall>t \<in> set ts. length (corners t) = 3
           \<and> (\<forall>c \<in> set (corners t). map fst (decisions c) = housemates)"
  shows "\<exists>ts'. labelInner ts ls = Inr ts'"
  using assms
proof (induction ts ls rule: labelInner.induct)
  case (1 ls)
  then show ?case by simp
next
  case (2 t ts)
  then show ?case by simp
next
  case (3 t ts l ls)
  have pl: "is_permutation l" using "3.prems"(1) by simp
  then have "length l \<le> length (corners t)" "set l \<subseteq> set housemates"
    using "3.prems"(3) by (simp_all add: is_permutation_def housemates_def)
  from readChoices_ok [OF this] "3.prems"(3) obtain chs where
    "readChoices (corners t) l = Inr chs" by auto
  then obtain t1 where t1: "initChoicesFromCornerLabel (set_corner_label l t) = Inr t1"
    by (simp add: initChoicesFromCornerLabel_def)
  from initChoices_fields [OF t1] have "corner_label t1 = l" by simp
  with generate_keeps_perm [of t1] pl obtain t1' where
    "generateLabelsFromCornerLabel t1 = Inr t1'" by auto
  then have "\<exists>t2. (if good t1 then generateLabelsFromCornerLabel t1 else Inr t1) = Inr t2"
    by (cases "good t1") simp_all
  then obtain t2 where t2: "(if good t1 then generateLabelsFromCornerLabel t1 else Inr t1) = Inr t2"
    by blast
  from "3.IH" "3.prems" obtain rest where "labelInner ts ls = Inr rest" by auto
  with t1 t2 show ?case by simp
qed

lemma mainLoop_bound:
  "i \<le> max_iter \<Longrightarrow> rounds (mainLoop S tri i last_bary) \<le> max_iter
     \<and> final_i (mainLoop S tri i last_bary) \<le> rounds (mainLoop S tri i last_bary) + 1"
proof (induction S tri i last_bary rule: mainLoop.induct)
  case (1 S tri i last_bary)
  show ?case
  proof (cases "loopBody S tri")
    case (Inl e)
    then show ?thesis using "1.prems" by (subst (1 2 3) mainLoop.simps) simp
  next
    case (Inr t')
    show ?thesis
    proof (cases "Point_eq (barycentre_pt t') last_bary")
      case (Inl e)
      then show ?thesis using Inr "1.prems"
        by (subst (1 2 3) mainLoop.simps) (simp add: Let_def)
    next
      case same: (Inr same)
      show ?thesis
      proof (cases "same \<or> max_iter < i + 1")
        case True
        then show ?thesis using Inr same "1.prems"
          by (subst (1 2 3) mainLoop.simps) (auto simp: Let_def)
      next
        case False
        with "1.IH" [OF Inr refl same]
        have "rounds (mainLoop S t' (i + 1) (barycentre_pt t')) \<le> max_iter
          \<and> final_i (mainLoop S t' (i + 1) (barycentre_pt t'))
             \<le> rounds (mainLoop S t' (i + 1) (barycentre_pt t')) + 1"
          by simp
        then show ?thesis using Inr same False
          by (subst (1 2 3) mainLoop.simps) (simp add: Let_def)
      qed
    qed
  qed
qed

lemma initInner_ok:
  assumes c: "corners t = [c0, c1, c2]" and m: "mid_points t = [m0, m1, m2]"
    and lab: "labels_ok t"
    and keys: "\<forall>p \<in> {c0, c1, c2, m0, m1, m2, barycentre_pt t}. map fst (decisions p) = housemates"
    and n: "\<exists>t0. Triangle_new S c0 m0 (barycentre_pt t) (name t @ ''0'') = Inr t0"
      "\<exists>t1. Triangle_new S m0 c1 (barycentre_pt t) (name t @ ''1'') = Inr t1"
      "\<exists>t2. Triangle_new S (barycentre_pt t) c1 m1 (name t @ ''2'') = Inr t2"
      "\<exists>t3. Triangle_new S (barycentre_pt t) m1 c2 (name t @ ''3'') = Inr t3"
      "\<exists>t4. Triangle_new S m2 (barycentre_pt t) c2 (name t @ ''4'') = Inr t4"
      "\<exists>t5. Triangle_new S c0 (barycentre_pt t) m2 (name t @ ''5'') = Inr t5"
  shows "\<exists>t'. initInnerTriangles S t = Inr t'"
proof -
  let ?b = "barycentre_pt t"
  from n obtain t0 t1 t2 t3 t4 t5 where
    ts: "Triangle_new S c0 m0 ?b (name t @ ''0'') = Inr t0"
       "Triangle_new S m0 c1 ?b (name t @ ''1'') = Inr t1"
       "Triangle_new S ?b c1 m1 (name t @ ''2'') = Inr t2"
       "Triangle_new S ?b m1 c2 (name t @ ''3'') = Inr t3"
       "Triangle_new S m2 ?b c2 (name t @ ''4'') = Inr t4"
       "Triangle_new S c0 ?b m2 (name t @ ''5'') = Inr t5"
    by (elim exE) (rule that)
  have cs: "corners t0 = [c0, m0, ?b]" "corners t1 = [m0, c1, ?b]" "corners t2 = [?b, c1, m1]"
    "corners t3 = [?b, m1, c2]" "corners t4 = [m2, ?b, c2]" "corners t5 = [c0, ?b, m2]"
    using ts [THEN Triangle_new_fields(2)] by simp_all
  have "\<forall>u \<in> set [t0, t1, t2, t3, t4, t5]. length (corners u) = 3
           \<and> (\<forall>c \<in> set (corners u). map fst (decisions c) = housemates)"
    using keys by (simp add: cs)
  from labelInner_ok [OF _ _ this, of "labels t"] lab obtain ts' where
    "labelInner [t0, t1, t2, t3, t4, t5] (labels t) = Inr ts'"
    by (auto simp: labels_ok_def)
  with ts show ?thesis by (simp add: initInnerTriangles_def c m)
qed

lemmas geo_defs = Triangle_new_def initPointsFromCorners_def findPoint_def lerp_def upt_rec
  py_get_def rooms_def EPS_def total_rent_def normalise_def py_round_def ROUNDING_def
  round_half_even_def Let_def

lemma root_points:
  assumes "never_raise S"
  shows "Point_init S [0, 0, total_rent] = Inr (mkPoint S [0, 0, 1000])"
    "Point_init S [0, total_rent, 0] = Inr (mkPoint S [0, 1000, 0])"
    "Point_init S [total_rent, 0, 0] = Inr (mkPoint S [1000, 0, 0])"
  by (simp_all add: Point_init_eval [OF assms] geo_defs)

lemma root_new:
  assumes "never_raise S"
  shows "Triangle_new S (mkPoint S [0, 0, 1000]) (mkPoint S [0, 1000, 0]) (mkPoint S [1000, 0, 0]) nm
    = Inr (Triangle [mkPoint S [0, 0, 1000], mkPoint S [0, 1000, 0], mkPoint S [1000, 0, 0]]
        [mkPoint S [0, 500, 500], mkPoint S [500, 500, 0], mkPoint S [500, 0, 500],
         mkPoint S [0, 0, 1000], mkPoint S [0, 1000, 0], mkPoint S [1000, 0, 0],
         mkPoint S [333333 / 1000, 333333 / 1000, 333333 / 1000]]
        [mkPoint S [0, 500, 500], mkPoint S [500, 500, 0], mkPoint S [500, 0, 500]]
        [] ''AAA'' False nm (mkPoint S [333333 / 1000, 333333 / 1000, 333333 / 1000])
        default_labels None)"
  by (simp add: Point_init_eval [OF assms] geo_defs)

lemma root_children:
  assumes "never_raise S"
  shows
    "\<exists>t. Triangle_new S (mkPoint S [0, 0, 1000]) (mkPoint S [0, 500, 500])
        (mkPoint S [333333 / 1000, 333333 / 1000, 333333 / 1000]) n0 = Inr t"
    "\<exists>t. Triangle_new S (mkPoint S [0, 500, 500]) (mkPoint S [0, 1000, 0])
        (mkPoint S [333333 / 1000, 333333 / 1000, 333333 / 1000]) n1 = Inr t"
    "\<exists>t. Triangle_new S (mkPoint S [333333 / 1000, 333333 / 1000, 333333 / 1000])
        (mkPoint S [0, 1000, 0]) (mkPoint S [500, 500, 0]) n2 = Inr t"
    "\<exists>t. Triangle_new S (mkPoint S [333333 / 1000, 333333 / 1000, 333333 / 1000])
        (mkPoint S [500, 500, 0]) (mkPoint S [1000, 0, 0]) n3 = Inr t"
    "\<exists>t. Triangle_new S (mkPoint S [500, 0, 500])
        (mkPoint S [333333 / 1000, 333333 / 1000, 333333 / 1000]) (mkPoint S [1000, 0, 0]) n4
        = Inr t"
    "\<exists>t. Triangle_new S (mkPoint S [0, 0, 1000])
        (mkPoint S [333333 / 1000, 333333 / 1000, 333333 / 1000]) (mkPoint S [500, 0, 500]) n5
        = Inr t"
  by (simp_all add: Point_init_eval [OF assms] geo_defs)

lemma root_subdivides:
  assumes S: "never_raise S"
  shows "\<exists>t. Triangle_init S (mkPoint S [0, 0, 1000]) (mkPoint S [0, 1000, 0])
             (mkPoint S [1000, 0, 0]) True [] = Inr t"
proof -
  let ?t = "Triangle [mkPoint S [0, 0, 1000], mkPoint S [0, 1000, 0], mkPoint S [1000, 0, 0]]
        [mkPoint S [0, 500, 500], mkPoint S [500, 500, 0], mkPoint S [500, 0, 500],
         mkPoint S [0, 0, 1000], mkPoint S [0, 1000, 0], mkPoint S [1000, 0, 0],
         mkPoint S [333333 / 1000, 333333 / 1000, 333333 / 1000]]
        [mkPoint S [0, 500, 500], mkPoint S [500, 500, 0], mkPoint S [500, 0, 500]]
        [] ''AAA'' False [] (mkPoint S [333333 / 1000, 333333 / 1000, 333333 / 1000])
        default_labels None"
  have lab: "labels_ok ?t"
    using default_labels_perm by (simp add: labels_ok_def default_labels_def)
  have keys: "map fst (decisions (mkPoint S [a, b, c])) = housemates" for a b c
    by (rule mkPoint_keys [OF S]) (simp add: rooms_def)
  have "\<exists>t'. initInnerTriangles S ?t = Inr t'"
    by (rule initInner_ok [where ?c0.0 = "mkPoint S [0, 0, 1000]"
          and ?c1.0 = "mkPoint S [0, 1000, 0]" and ?c2.0 = "mkPoint S [1000, 0, 0]"
          and ?m0.0 = "mkPoint S [0, 500, 500]" and ?m1.0 = "mkPoint S [500, 500, 0]"
          and ?m2.0 = "mkPoint S [500, 0, 500]"])
       (simp_all add: lab keys root_children [OF S])
  then show ?thesis by (simp add: Triangle_init_def root_new [OF S])
qed

text \<open>
  Claim C6. For strategies that are preference functions (each housemate has one, and
  it returns on every price vector), the main program builds the three extreme points
  and the first subdivided triangle without error, its loop stops, and it stops in one
  of the states Converged, Exhausted or Stuck after at most 1000 passes through the
  loop body. (\<open>mainLoop\<close> is a total function: its termination proof is the
  counter \<open>i\<close>, which grows by one in every pass and ends the loop above \<open>max_iter\<close>.)
\<close>

theorem driver_terminates:
  assumes "never_raise S"
  shows "\<exists>r. main S = Inr r \<and> rounds r \<le> 1000
     \<and> (final_status r = Converged \<or> final_status r = Exhausted
          \<or> (\<exists>e. final_status r = Stuck e))"
proof -
  from root_subdivides [OF assms] obtain t where
    "Triangle_init S (mkPoint S [0, 0, 1000]) (mkPoint S [0, 1000, 0])
             (mkPoint S [1000, 0, 0]) True [] = Inr t"
    by blast
  then have m: "main S = Inr (mainLoop S t 1 (barycentre_pt t))"
    by (simp add: main_def root_points [OF assms])
  have "rounds (mainLoop S t 1 (barycentre_pt t)) \<le> max_iter"
    using mainLoop_bound [of 1 S t "barycentre_pt t"] by (simp add: max_iter_def)
  moreover have "final_status r = Converged \<or> final_status r = Exhausted
          \<or> (\<exists>e. final_status r = Stuck e)" for r :: outcome
    by (cases "final_status r") simp_all
  ultimately show ?thesis using m by (simp add: max_iter_def)
qed

theorem driver_terminates_witness:
  "never_raise strategies
   \<and> (\<exists>r. main strategies = Inr r \<and> rounds r \<le> 1000
     \<and> (final_status r = Converged \<or> final_status r = Exhausted
          \<or> (\<exists>e. final_status r = Stuck e)))"
  using driver_terminates [OF strategies_never_raise] strategies_never_raise by blast

end
